theory Spec2Isabelle
  imports Main "HOL-Library.Sublist" "HOL-Library.Word"
begin

section \<open>Python values used by elm\_mirror.py\<close>

text \<open>
  Text and bytes are both lists of 8-bit characters. Exceptions are values: a function
  that can raise returns \<open>exn + 'a\<close>, with \<open>Inl\<close> carrying the exception.
\<close>

type_synonym bytes = "char list"

datatype exn =
    ValueError string
  | KeyError string
  | TypeError
  | JSONDecodeError
  | UnicodeDecodeError
  | OSError
  | URLError

definition startswith :: "string \<Rightarrow> string \<Rightarrow> bool" where
  "startswith s p = prefix p s"

definition endswith :: "string \<Rightarrow> string \<Rightarrow> bool" where
  "endswith s p = suffix p s"

text \<open>\<open>p in s\<close> on strings: \<open>p\<close> occurs in \<open>s\<close> as a contiguous run.\<close>

definition contains :: "string \<Rightarrow> string \<Rightarrow> bool" where
  "contains s p = sublist p s"

text \<open>\<open>s.lstrip("/")\<close> and \<open>s.rstrip("/")\<close>.\<close>

definition lstrip_slash :: "string \<Rightarrow> string" where
  "lstrip_slash s = dropWhile (\<lambda>c. c = CHR ''/'') s"

definition rstrip_slash :: "string \<Rightarrow> string" where
  "rstrip_slash s = rev (dropWhile (\<lambda>c. c = CHR ''/'') (rev s))"

text \<open>
  \<open>str(n)\<close> for a natural number, and \<open>int(s)\<close> on a string of decimal digits. Integers
  are unbounded, as Python's are; a cap an interpreter may put on the length of the digit
  string is a resource limit and is not modelled.
\<close>

definition digit_char :: "nat \<Rightarrow> char" where
  "digit_char d = ''0123456789'' ! d"

fun str_nat :: "nat \<Rightarrow> string" where
  "str_nat n = (if n < 10 then [digit_char n] else str_nat (n div 10) @ [digit_char (n mod 10)])"

declare str_nat.simps [simp del]

definition is_digit :: "char \<Rightarrow> bool" where
  "is_digit c = (c \<in> set ''0123456789'')"

definition digit_val :: "char \<Rightarrow> nat" where
  "digit_val c = of_char c - 48"

definition int_of_digits :: "string \<Rightarrow> nat" where
  "int_of_digits ds = foldl (\<lambda>a c. 10 * a + digit_val c) 0 ds"

definition str_int :: "int \<Rightarrow> string" where
  "str_int i = (if i < 0 then CHR ''-'' # str_nat (nat (- i)) else str_nat (nat i))"

text \<open>\<open>sep.join(xs)\<close>.\<close>

fun join :: "string \<Rightarrow> string list \<Rightarrow> string" where
  "join sep [] = []"
| "join sep [x] = x"
| "join sep (x # y # ys) = x @ sep @ join sep (y # ys)"

subsection \<open>JSON values and \<open>json.dumps\<close>\<close>

text \<open>
  A decoded JSON document. An object is its list of members in insertion order, as a
  Python dict keeps them. Floating-point numbers do not occur in the data this program
  inspects and are left out.
\<close>

datatype json =
    JNull
  | JBool bool
  | JInt int
  | JStr string
  | JArr "json list"
  | JObj "(string \<times> json) list"

text \<open>
  \<open>json.dumps\<close> with its defaults (\<open>ensure_ascii\<close>, separators \<open>", "\<close> and \<open>": "\<close>).
  Inside a string the quote and the backslash are escaped with a backslash, the control
  characters 8, 9, 10, 12 and 13 get their letter, and every other character outside
  the printable ASCII range \<open>0x20 .. 0x7e\<close> is written \<open>\u00xx\<close> with lower-case hex digits.
\<close>

definition hex_digit :: "nat \<Rightarrow> char" where
  "hex_digit d = ''0123456789abcdef'' ! d"

definition json_escape_char :: "char \<Rightarrow> string" where
  "json_escape_char c =
     (if c = CHR 0x22 then [CHR 0x5C, CHR 0x22]
      else if c = CHR 0x5C then [CHR 0x5C, CHR 0x5C]
      else if c = CHR 0x0A then [CHR 0x5C, CHR ''n'']
      else if c = CHR 0x0D then [CHR 0x5C, CHR ''r'']
      else if c = CHR 0x09 then [CHR 0x5C, CHR ''t'']
      else if c = CHR 0x08 then [CHR 0x5C, CHR ''b'']
      else if c = CHR 0x0C then [CHR 0x5C, CHR ''f'']
      else if 32 \<le> (of_char c :: nat) \<and> (of_char c :: nat) \<le> 126 then [c]
      else [CHR 0x5C, CHR ''u'', CHR ''0'', CHR ''0'',
            hex_digit ((of_char c :: nat) div 16), hex_digit ((of_char c :: nat) mod 16)])"

definition json_string :: "string \<Rightarrow> string" where
  "json_string s = CHR 0x22 # concat (map json_escape_char s) @ [CHR 0x22]"

fun json_dumps :: "json \<Rightarrow> string" where
  "json_dumps JNull = ''null''"
| "json_dumps (JBool b) = (if b then ''true'' else ''false'')"
| "json_dumps (JInt i) = str_int i"
| "json_dumps (JStr s) = json_string s"
| "json_dumps (JArr xs) = ''['' @ join '', '' (map json_dumps xs) @ '']''"
| "json_dumps (JObj kvs) =
     ''{'' @ join '', '' (map (\<lambda>kv. json_string (fst kv) @ '': '' @ json_dumps (snd kv)) kvs) @ ''}''"

text \<open>\<open>d[key]\<close> on a decoded document: a missing key raises KeyError, and subscripting
  anything but an object with a string raises TypeError.\<close>

definition json_getitem :: "json \<Rightarrow> string \<Rightarrow> exn + json" where
  "json_getitem d key =
     (case d of
        JObj kvs \<Rightarrow> (case map_of kvs key of None \<Rightarrow> Inl (KeyError key) | Some v \<Rightarrow> Inr v)
      | _ \<Rightarrow> Inl TypeError)"

section \<open>Registry management\<close>

text \<open>Status values for packages.\<close>

definition STATUS_SUCCESS :: string where "STATUS_SUCCESS = ''success''"
definition STATUS_PENDING :: string where "STATUS_PENDING = ''pending''"
definition STATUS_FAILED :: string where "STATUS_FAILED = ''failed''"
definition STATUS_IGNORED :: string where "STATUS_IGNORED = ''ignored''"

text \<open>A registry entry \<open>{"id": ..., "status": ...}\<close> and the registry \<open>{"packages": [...]}\<close>.\<close>

record pkg =
  pkg_id :: string
  pkg_status :: string

record registry =
  packages :: "pkg list"

text \<open>The loop of \<open>get_package_status\<close>: the first entry with the identifier decides.\<close>

fun find_status :: "pkg list \<Rightarrow> string \<Rightarrow> string option" where
  "find_status [] package_id = None"
| "find_status (p # ps) package_id =
     (if pkg_id p = package_id then Some (pkg_status p) else find_status ps package_id)"

definition get_package_status :: "registry \<Rightarrow> string \<Rightarrow> string option" where
  "get_package_status registry package_id = find_status (packages registry) package_id"

text \<open>
  The loop of \<open>set_package_status\<close>: the first entry with the identifier gets the status
  and the function returns; when the loop runs off the end a new entry is appended.
\<close>

fun upsert_status :: "pkg list \<Rightarrow> string \<Rightarrow> string \<Rightarrow> pkg list" where
  "upsert_status [] package_id status = [\<lparr>pkg_id = package_id, pkg_status = status\<rparr>]"
| "upsert_status (p # ps) package_id status =
     (if pkg_id p = package_id then p\<lparr>pkg_status := status\<rparr> # ps
      else p # upsert_status ps package_id status)"

definition set_package_status :: "registry \<Rightarrow> string \<Rightarrow> string \<Rightarrow> registry" where
  "set_package_status registry package_id status =
     registry\<lparr>packages := upsert_status (packages registry) package_id status\<rparr>"


text \<open>
  \<open>parse_package_id\<close>: \<open>re.match(r"^([^/]+)/([^@]+)@(.+)$", package_id)\<close>. The author is
  the non-empty run before the first slash, the name the non-empty run after it up to
  the next \<open>@\<close> (it may contain slashes), and the version what follows: \<open>.\<close> does not
  match a newline and \<open>$\<close> matches at the end or before one final newline, so the
  version is non-empty, has no newline, and is followed by nothing or by one newline.
\<close>

definition parse_package_id :: "string \<Rightarrow> exn + (string \<times> string \<times> string)" where
  "parse_package_id package_id =
     (let author = takeWhile (\<lambda>c. c \<noteq> CHR ''/'') package_id;
          rest = dropWhile (\<lambda>c. c \<noteq> CHR ''/'') package_id;
          name = takeWhile (\<lambda>c. c \<noteq> CHR ''@'') (tl rest);
          rest2 = dropWhile (\<lambda>c. c \<noteq> CHR ''@'') (tl rest);
          version = takeWhile (\<lambda>c. c \<noteq> CHR 0x0A) (tl rest2);
          after = dropWhile (\<lambda>c. c \<noteq> CHR 0x0A) (tl rest2)
      in if author \<noteq> [] \<and> rest \<noteq> [] \<and> name \<noteq> [] \<and> rest2 \<noteq> [] \<and> version \<noteq> []
            \<and> (after = [] \<or> after = [CHR 0x0A])
         then Inr (author, name, version)
         else Inl (ValueError (''Invalid package ID: '' @ package_id)))"

section \<open>Package list (whitelist) handling\<close>

text \<open>The package list is \<open>None\<close> (sync everything) or a set of strings.\<close>

definition should_sync_package :: "string \<Rightarrow> string set option \<Rightarrow> exn + bool" where
  "should_sync_package package_id package_list =
     (case package_list of
        None \<Rightarrow> Inr True
      | Some pl \<Rightarrow>
          if package_id \<in> pl then Inr True
          else (case parse_package_id package_id of
                  Inl e \<Rightarrow> Inl e
                | Inr (author, name, _) \<Rightarrow>
                    if author @ ''/'' @ name \<in> pl then Inr True else Inr False))"

section \<open>SHA-1 as \<open>hashlib\<close> computes it\<close>

text \<open>
  The hash object of \<open>hashlib.sha1()\<close>: the chaining value, the bytes fed so far that do
  not fill a 64-byte block yet, and the number of bytes fed. \<open>update\<close> compresses every
  complete block; \<open>hexdigest\<close> pads what is pending (FIPS 180-4) and prints the
  chaining value in lower-case hex.
\<close>

type_synonym w32 = "32 word"

type_synonym sha1_chain = "w32 \<times> w32 \<times> w32 \<times> w32 \<times> w32"

record sha1_obj =
  chain :: sha1_chain
  pending :: bytes
  fed :: nat

definition sha1_iv :: sha1_chain where
  "sha1_iv = (0x67452301, 0xEFCDAB89, 0x98BADCFE, 0x10325476, 0xC3D2E1F0)"

definition be32 :: "bytes \<Rightarrow> w32" where
  "be32 bs = foldl (\<lambda>a c. push_bit 8 a + word_of_nat (of_char c)) 0 (take 4 bs)"

fun block_words :: "nat \<Rightarrow> bytes \<Rightarrow> w32 list" where
  "block_words 0 bs = []"
| "block_words (Suc n) bs = be32 bs # block_words n (drop 4 bs)"

fun sha1_expand :: "nat \<Rightarrow> w32 list \<Rightarrow> w32 list" where
  "sha1_expand 0 ws = ws"
| "sha1_expand (Suc n) ws =
     (let l = length ws
      in sha1_expand n
           (ws @ [word_rotl 1 (xor (xor (ws ! (l - 3)) (ws ! (l - 8)))
                                   (xor (ws ! (l - 14)) (ws ! (l - 16))))]))"

definition sha1_f :: "nat \<Rightarrow> w32 \<Rightarrow> w32 \<Rightarrow> w32 \<Rightarrow> w32" where
  "sha1_f t b c d =
     (if t < 20 then or (and b c) (and (not b) d)
      else if t < 40 then xor (xor b c) d
      else if t < 60 then or (or (and b c) (and b d)) (and c d)
      else xor (xor b c) d)"

definition sha1_k :: "nat \<Rightarrow> w32" where
  "sha1_k t =
     (if t < 20 then 0x5A827999 else if t < 40 then 0x6ED9EBA1
      else if t < 60 then 0x8F1BBCDC else 0xCA62C1D6)"

definition sha1_round :: "w32 list \<Rightarrow> nat \<Rightarrow> sha1_chain \<Rightarrow> sha1_chain" where
  "sha1_round ws t st =
     (case st of (a, b, c, d, e) \<Rightarrow>
        (word_rotl 5 a + sha1_f t b c d + e + sha1_k t + ws ! t, a, word_rotl 30 b, c, d))"

definition sha1_compress :: "sha1_chain \<Rightarrow> bytes \<Rightarrow> sha1_chain" where
  "sha1_compress h block =
     (let ws = sha1_expand 64 (block_words 16 block)
      in case (h, fold (sha1_round ws) [0..<80] h) of
           ((h0, h1, h2, h3, h4), (a, b, c, d, e)) \<Rightarrow> (h0 + a, h1 + b, h2 + c, h3 + d, h4 + e))"

function absorb :: "sha1_chain \<Rightarrow> bytes \<Rightarrow> sha1_chain \<times> bytes" where
  "absorb h data =
     (if length data < 64 then (h, data)
      else absorb (sha1_compress h (take 64 data)) (drop 64 data))"
  by pat_completeness auto
termination
  by (relation "measure (\<lambda>(h, data). length data)") auto

declare absorb.simps [simp del]

definition be64_bytes :: "nat \<Rightarrow> bytes" where
  "be64_bytes n = map (\<lambda>i. char_of ((n div 256 ^ (7 - i)) mod 256)) [0..<8]"

definition sha1_padding :: "nat \<Rightarrow> bytes" where
  "sha1_padding n = CHR 0x80 # replicate ((119 - n mod 64) mod 64) (CHR 0x00) @ be64_bytes (8 * n)"

definition hex_word :: "w32 \<Rightarrow> string" where
  "hex_word w = map (\<lambda>i. hex_digit ((unat w div 16 ^ (7 - i)) mod 16)) [0..<8]"

definition sha1_new :: sha1_obj where
  "sha1_new = \<lparr>chain = sha1_iv, pending = [], fed = 0\<rparr>"

definition sha1_update :: "sha1_obj \<Rightarrow> bytes \<Rightarrow> sha1_obj" where
  "sha1_update obj data =
     (case absorb (chain obj) (pending obj @ data) of
        (h, rest) \<Rightarrow> \<lparr>chain = h, pending = rest, fed = fed obj + length data\<rparr>)"

definition sha1_hexdigest :: "sha1_obj \<Rightarrow> string" where
  "sha1_hexdigest obj =
     (case fst (absorb (chain obj) (pending obj @ sha1_padding (fed obj))) of
        (h0, h1, h2, h3, h4) \<Rightarrow> hex_word h0 @ hex_word h1 @ hex_word h2 @ hex_word h3 @ hex_word h4)"

text \<open>The digest of a whole byte string fed at once: \<open>hashlib.sha1(data).hexdigest()\<close>.\<close>

definition sha1_hex :: "bytes \<Rightarrow> string" where
  "sha1_hex data = sha1_hexdigest (sha1_update sha1_new data)"

text \<open>
  \<open>compute_sha1\<close>: the loop \<open>while chunk := f.read(n): sha1.update(chunk)\<close> over the
  bytes of the file not read yet. \<open>f.read(n)\<close> returns the next \<open>n\<close> bytes, fewer
  at the end of the file, and the loop stops at the first empty chunk. The source reads
  8192 bytes at a time.
\<close>

function read_chunks :: "nat \<Rightarrow> bytes \<Rightarrow> sha1_obj \<Rightarrow> sha1_obj" where
  "read_chunks chunk_size rest sha1 =
     (let chunk = take chunk_size rest
      in if chunk = [] then sha1
         else read_chunks chunk_size (drop chunk_size rest) (sha1_update sha1 chunk))"
  by pat_completeness auto
termination
  by (relation "measure (\<lambda>(chunk_size, rest, sha1). length rest)") (auto simp: Let_def)

declare read_chunks.simps [simp del]

definition compute_sha1_chunked :: "nat \<Rightarrow> bytes \<Rightarrow> string" where
  "compute_sha1_chunked chunk_size contents =
     sha1_hexdigest (read_chunks chunk_size contents sha1_new)"

section \<open>The mirror directory and the outside world\<close>

text \<open>
  The mirror directory is a map from paths, written relative to \<open>mirror_dir\<close> and compared
  as written, to regular files and directories. \<open>registry.json\<close> is kept apart and held
  as the registry it encodes: its JSON encoding and decoding are not modelled. The clock
  counts the network requests and the file-system writes made so far, and \<open>attempted\<close>
  lists the identifiers \<open>sync_package\<close> has been called with, in order.
\<close>

datatype fs_entry = File bytes | Dir

record sys =
  files :: "string \<Rightarrow> fs_entry option"
  registry_json :: "registry option"
  clock :: nat
  attempted :: "string list"

text \<open>
  What the program does not decide: what \<open>urlopen\<close> answers to the request made at a
  given step (the body, or the exception it raises), whether the file-system write made
  at a given step to a given path raises \<open>OSError\<close>, and the library functions
  \<open>json.loads\<close> (on the bytes read, raising \<open>UnicodeDecodeError\<close> or \<open>JSONDecodeError\<close> on
  a text that is not JSON) and \<open>json.dumps(..., indent=4)\<close>. Reading a regular file that
  exists succeeds.
\<close>

record world =
  urlopen :: "nat \<Rightarrow> string \<Rightarrow> exn + bytes"
  disk_fault :: "nat \<Rightarrow> string \<Rightarrow> bool"
  json_loads :: "bytes \<Rightarrow> exn + json"
  json_dumps_indent :: "json \<Rightarrow> string"

type_synonym 'a io = "sys \<Rightarrow> (exn + 'a) \<times> sys"

definition return_io :: "'a \<Rightarrow> 'a io" where
  "return_io x s = (Inr x, s)"

definition lift_io :: "exn + 'a \<Rightarrow> 'a io" where
  "lift_io r s = (r, s)"

definition bind_io :: "'a io \<Rightarrow> ('a \<Rightarrow> 'b io) \<Rightarrow> 'b io" where
  "bind_io m f s = (case m s of (Inl e, s') \<Rightarrow> (Inl e, s') | (Inr x, s') \<Rightarrow> f x s')"

definition tick :: "sys \<Rightarrow> sys" where
  "tick s = s\<lparr>clock := Suc (clock s)\<rparr>"

definition path_exists :: "sys \<Rightarrow> string \<Rightarrow> bool" where
  "path_exists s path = (files s path \<noteq> None)"

definition is_file :: "sys \<Rightarrow> string \<Rightarrow> bool" where
  "is_file s path = (case files s path of Some (File _) \<Rightarrow> True | _ \<Rightarrow> False)"

text \<open>\<open>open(path, "rb").read()\<close>: a directory or a missing file raises.\<close>

definition read_file :: "sys \<Rightarrow> string \<Rightarrow> exn + bytes" where
  "read_file s path =
     (case files s path of Some (File contents) \<Rightarrow> Inr contents | _ \<Rightarrow> Inl OSError)"

text \<open>\<open>path.mkdir(parents=True, exist_ok=True)\<close>: a regular file in the way raises.\<close>

definition mkdir :: "world \<Rightarrow> string \<Rightarrow> unit io" where
  "mkdir w path s =
     (if disk_fault w (clock s) path \<or> is_file s path then (Inl OSError, tick s)
      else (Inr (), tick (s\<lparr>files := (files s)(path \<mapsto> Dir)\<rparr>)))"

text \<open>Opening a file for writing and writing it: a directory in the way raises.\<close>

definition write_file :: "world \<Rightarrow> string \<Rightarrow> bytes \<Rightarrow> unit io" where
  "write_file w path contents s =
     (if disk_fault w (clock s) path \<or> files s path = Some Dir then (Inl OSError, tick s)
      else (Inr (), tick (s\<lparr>files := (files s)(path \<mapsto> File contents)\<rparr>)))"

text \<open>\<open>temp_path.replace(dest_path)\<close>.\<close>

definition replace_file :: "world \<Rightarrow> string \<Rightarrow> string \<Rightarrow> unit io" where
  "replace_file w temp_path dest_path s =
     (if disk_fault w (clock s) dest_path \<or> files s temp_path = None
         \<or> files s dest_path = Some Dir
      then (Inl OSError, tick s)
      else (Inr (), tick (s\<lparr>files := (files s)(dest_path := files s temp_path, temp_path := None)\<rparr>)))"

text \<open>\<open>load_registry\<close>: the registry on disk, or the empty registry when there is none.\<close>

definition load_registry :: "sys \<Rightarrow> registry" where
  "load_registry s = (case registry_json s of Some r \<Rightarrow> r | None \<Rightarrow> \<lparr>packages = []\<rparr>)"

text \<open>\<open>save_registry\<close>: write \<open>registry.json.tmp\<close>, then rename it over \<open>registry.json\<close>.\<close>

definition save_registry :: "world \<Rightarrow> registry \<Rightarrow> unit io" where
  "save_registry w r s =
     (if disk_fault w (clock s) ''registry.json.tmp'' then (Inl OSError, tick s)
      else if disk_fault w (Suc (clock s)) ''registry.json'' then (Inl OSError, tick (tick s))
      else (Inr (), tick (tick (s\<lparr>registry_json := Some r\<rparr>))))"

text \<open>\<open>compute_sha1\<close>: open the file and hash it in reads of 8192 bytes.\<close>

definition compute_sha1 :: "string \<Rightarrow> string io" where
  "compute_sha1 file_path s =
     (case read_file s file_path of
        Inl e \<Rightarrow> (Inl e, s)
      | Inr contents \<Rightarrow> (Inr (compute_sha1_chunked 8192 contents), s))"

section \<open>HTTP utilities and sync functionality\<close>

definition ELM_PACKAGE_SERVER :: string where
  "ELM_PACKAGE_SERVER = ''https://package.elm-lang.org''"

definition fetch_url :: "world \<Rightarrow> string \<Rightarrow> bytes io" where
  "fetch_url w url s = (urlopen w (clock s) url, tick s)"

definition fetch_json :: "world \<Rightarrow> string \<Rightarrow> json io" where
  "fetch_json w url = bind_io (fetch_url w url) (\<lambda>data. lift_io (json_loads w data))"

definition fetch_all_packages_since :: "world \<Rightarrow> nat \<Rightarrow> json io" where
  "fetch_all_packages_since w since =
     fetch_json w (ELM_PACKAGE_SERVER @ ''/all-packages/since/'' @ str_nat since)"

definition fetch_all_packages :: "world \<Rightarrow> json io" where
  "fetch_all_packages w = fetch_json w (ELM_PACKAGE_SERVER @ ''/all-packages'')"

definition fetch_package_endpoint :: "world \<Rightarrow> string \<Rightarrow> string \<Rightarrow> string \<Rightarrow> json io" where
  "fetch_package_endpoint w author name version =
     fetch_json w (ELM_PACKAGE_SERVER @ ''/packages/'' @ author @ ''/'' @ name @ ''/''
                   @ version @ ''/endpoint.json'')"

definition fetch_package_elm_json :: "world \<Rightarrow> string \<Rightarrow> string \<Rightarrow> string \<Rightarrow> json io" where
  "fetch_package_elm_json w author name version =
     fetch_json w (ELM_PACKAGE_SERVER @ ''/packages/'' @ author @ ''/'' @ name @ ''/''
                   @ version @ ''/elm.json'')"

text \<open>
  \<open>download_package_zip\<close>: fetch, write \<open>package.zip.tmp\<close>, rename. A \<open>url\<close> member of the
  endpoint document that is not a string makes \<open>urllib\<close> raise.
\<close>

definition download_package_zip :: "world \<Rightarrow> json \<Rightarrow> string \<Rightarrow> unit io" where
  "download_package_zip w zip_url dest_path =
     (case zip_url of
        JStr url \<Rightarrow>
          bind_io (fetch_url w url) (\<lambda>data.
          bind_io (write_file w (dest_path @ ''.tmp'') data) (\<lambda>_.
          replace_file w (dest_path @ ''.tmp'') dest_path))
      | _ \<Rightarrow> lift_io (Inl TypeError))"

text \<open>
  The \<open>try\<close> block of \<open>sync_package\<close>. It returns whether the digest of the downloaded
  archive equals the expected one; every exception raised inside it is its \<open>Inl\<close>.
\<close>

definition sync_package_try :: "world \<Rightarrow> string \<Rightarrow> string \<Rightarrow> string \<Rightarrow> bool io" where
  "sync_package_try w author name version =
     (let package_dir = ''packages/'' @ author @ ''/'' @ name @ ''/'' @ version
      in bind_io (mkdir w package_dir) (\<lambda>_.
         bind_io (fetch_package_endpoint w author name version) (\<lambda>endpoint.
         bind_io (lift_io (json_getitem endpoint ''url'')) (\<lambda>zip_url.
         bind_io (lift_io (json_getitem endpoint ''hash'')) (\<lambda>expected_hash.
         bind_io (write_file w (package_dir @ ''/hash.json'')
                    (json_dumps (JObj [(''hash'', expected_hash)]))) (\<lambda>_.
         bind_io (fetch_package_elm_json w author name version) (\<lambda>elm_json.
         bind_io (write_file w (package_dir @ ''/elm.json'') (json_dumps_indent w elm_json)) (\<lambda>_.
         bind_io (download_package_zip w zip_url (package_dir @ ''/package.zip'')) (\<lambda>_.
         bind_io (compute_sha1 (package_dir @ ''/package.zip'')) (\<lambda>actual_hash.
         return_io (JStr actual_hash = expected_hash)))))))))))"

text \<open>
  \<open>sync_package\<close>. The identifier is parsed before the \<open>try\<close>, so a malformed identifier
  raises out of the function; everything after is caught. The result is the returned
  flag and the registry with the new status.
\<close>

definition sync_package :: "world \<Rightarrow> string \<Rightarrow> registry \<Rightarrow> (bool \<times> registry) io" where
  "sync_package w package_id r s0 =
     (let s = s0\<lparr>attempted := attempted s0 @ [package_id]\<rparr>
      in case parse_package_id package_id of
           Inl e \<Rightarrow> (Inl e, s)
         | Inr (author, name, version) \<Rightarrow>
             (case sync_package_try w author name version s of
                (Inr True, s') \<Rightarrow> (Inr (True, set_package_status r package_id STATUS_SUCCESS), s')
              | (Inr False, s') \<Rightarrow> (Inr (False, set_package_status r package_id STATUS_FAILED), s')
              | (Inl e, s') \<Rightarrow> (Inr (False, set_package_status r package_id STATUS_FAILED), s')))"

text \<open>
  The upstream listing is annotated \<open>list[str]\<close>; a document of another shape is reported
  as a \<open>TypeError\<close>.
\<close>

fun as_str :: "json \<Rightarrow> string option" where
  "as_str (JStr x) = Some x"
| "as_str _ = None"

definition as_str_list :: "json \<Rightarrow> exn + string list" where
  "as_str_list j =
     (case j of
        JArr xs \<Rightarrow> if list_all (\<lambda>x. as_str x \<noteq> None) xs then Inr (map (\<lambda>x. the (as_str x)) xs)
                   else Inl TypeError
      | _ \<Rightarrow> Inl TypeError)"

text \<open>
  The loop of \<open>run_sync\<close> over \<open>remote_packages\<close>: an identifier that is not known yet is
  put in front of the registry as pending (\<open>insert(0, ...)\<close>), added to the known
  identifiers and appended to \<open>new_packages\<close>.
\<close>

fun discover_new ::
  "string list \<Rightarrow> registry \<Rightarrow> string set \<Rightarrow> string list \<Rightarrow> registry \<times> string set \<times> string list"
where
  "discover_new [] r existing_ids new_packages = (r, existing_ids, new_packages)"
| "discover_new (pid # remote_packages) r existing_ids new_packages =
     (if pid \<notin> existing_ids
      then discover_new remote_packages
             (r\<lparr>packages := \<lparr>pkg_id = pid, pkg_status = STATUS_PENDING\<rparr> # packages r\<rparr>)
             (insert pid existing_ids) (new_packages @ [pid])
      else discover_new remote_packages r existing_ids new_packages)"

definition failed_packages :: "registry \<Rightarrow> string list" where
  "failed_packages r = map pkg_id (filter (\<lambda>p. pkg_status p = STATUS_FAILED) (packages r))"

text \<open>
  The filter loop of \<open>run_sync\<close> when a package list is given: an allowed identifier is
  appended to \<open>filtered\<close>, any other is marked ignored. \<open>should_sync_package\<close> raises on
  an identifier that is not in the list and does not parse.
\<close>

fun filter_by_package_list ::
  "string list \<Rightarrow> string set \<Rightarrow> registry \<Rightarrow> string list \<Rightarrow> exn + (string list \<times> registry)"
where
  "filter_by_package_list [] package_list r filtered = Inr (filtered, r)"
| "filter_by_package_list (pid # packages_to_sync) package_list r filtered =
     (case should_sync_package pid (Some package_list) of
        Inl e \<Rightarrow> Inl e
      | Inr True \<Rightarrow> filter_by_package_list packages_to_sync package_list r (filtered @ [pid])
      | Inr False \<Rightarrow>
          filter_by_package_list packages_to_sync package_list
            (set_package_status r pid STATUS_IGNORED) filtered)"

text \<open>
  The sync loop of \<open>run_sync\<close>, \<open>i\<close> counting from 1: sync the package, count the
  outcome, and save the registry after every tenth package.
\<close>

fun sync_loop ::
  "world \<Rightarrow> string list \<Rightarrow> nat \<Rightarrow> registry \<Rightarrow> nat \<Rightarrow> nat \<Rightarrow> (registry \<times> nat \<times> nat) io"
where
  "sync_loop w [] i r success_count fail_count s = (Inr (r, success_count, fail_count), s)"
| "sync_loop w (pid # packages_to_sync) i r success_count fail_count s =
     (case sync_package w pid r s of
        (Inl e, s') \<Rightarrow> (Inl e, s')
      | (Inr (ok, r'), s') \<Rightarrow>
          (case (if i mod 10 = 0 then save_registry w r' s' else (Inr (), s')) of
             (Inl e, s'') \<Rightarrow> (Inl e, s'')
           | (Inr _, s'') \<Rightarrow>
               sync_loop w packages_to_sync (Suc i) r'
                 (if ok then Suc success_count else success_count)
                 (if ok then fail_count else Suc fail_count) s''))"

text \<open>
  \<open>run_sync\<close> from the comparison with the registry on: discover the new packages,
  add the failed ones, filter by the package list, sync, and save. It returns the two
  counts printed at the end.
\<close>

definition sync_discovered ::
  "world \<Rightarrow> string set option \<Rightarrow> string list \<Rightarrow> registry \<Rightarrow> (nat \<times> nat) io"
where
  "sync_discovered w package_list remote_packages r0 =
     (case discover_new remote_packages r0 (set (map pkg_id (packages r0))) [] of
        (r1, _, new_packages) \<Rightarrow>
          bind_io (lift_io
             (case package_list of
                None \<Rightarrow> Inr (new_packages @ failed_packages r1, r1)
              | Some pl \<Rightarrow> filter_by_package_list (new_packages @ failed_packages r1) pl r1 []))
            (\<lambda>(packages_to_sync, r2).
          bind_io (sync_loop w packages_to_sync 1 r2 0 0) (\<lambda>(r3, success_count, fail_count).
          bind_io (save_registry w r3) (\<lambda>_.
          return_io (success_count, fail_count)))))"

text \<open>\<open>run_sync\<close>: create the mirror directory, load the registry, fetch the listing and
  the index, store the index, and go on as above.\<close>

definition run_sync :: "world \<Rightarrow> string set option \<Rightarrow> (nat \<times> nat) io" where
  "run_sync w package_list =
     bind_io (mkdir w []) (\<lambda>_. (\<lambda>s.
       (let r0 = load_registry s
        in bind_io (fetch_all_packages_since w 0) (\<lambda>remote_json.
           bind_io (lift_io (as_str_list remote_json)) (\<lambda>remote_packages.
           bind_io (fetch_all_packages w) (\<lambda>all_packages.
           bind_io (write_file w ''all-packages'' (json_dumps all_packages)) (\<lambda>_.
           sync_discovered w package_list remote_packages r0)))))
       s))"

section \<open>WSGI server\<close>

text \<open>What \<open>start_response\<close> receives, and the content returned.\<close>

record response =
  status_line :: string
  headers :: "(string \<times> string) list"
  body :: bytes

text \<open>
  The application object: \<open>base_url\<close> with its trailing slashes stripped and the registry
  loaded from disk. The mirror directory is read from the system state at each request.
\<close>

record app =
  app_base_url :: string
  app_registry :: registry

definition ElmMirrorApp :: "sys \<Rightarrow> string \<Rightarrow> app" where
  "ElmMirrorApp s base_url =
     \<lparr>app_base_url = rstrip_slash base_url, app_registry = load_registry s\<rparr>"

definition reload_registry :: "app \<Rightarrow> sys \<Rightarrow> app" where
  "reload_registry a s = a\<lparr>app_registry := load_registry s\<rparr>"

definition error_response :: "nat \<Rightarrow> string \<Rightarrow> response" where
  "error_response status_code message =
     (let status_text =
            (if status_code = 400 then ''Bad Request''
             else if status_code = 404 then ''Not Found''
             else if status_code = 405 then ''Method Not Allowed''
             else if status_code = 503 then ''Service Unavailable''
             else ''Error'');
          content = json_dumps (JObj [(''error'', JStr message)])
      in \<lparr>status_line = str_nat status_code @ '' '' @ status_text,
          headers = [(''Content-Type'', ''application/json''),
                     (''Content-Length'', str_nat (length content))],
          body = content\<rparr>)"

definition ok_response :: "string \<Rightarrow> bytes \<Rightarrow> response" where
  "ok_response content_type content =
     \<lparr>status_line = ''200 OK'',
      headers = [(''Content-Type'', content_type), (''Content-Length'', str_nat (length content))],
      body = content\<rparr>"

definition serve_all_packages :: "sys \<Rightarrow> exn + response" where
  "serve_all_packages s =
     (if \<not> path_exists s ''all-packages''
      then Inr (error_response 404 ''all-packages not found'')
      else (case read_file s ''all-packages'' of
              Inl e \<Rightarrow> Inl e
            | Inr content \<Rightarrow> Inr (ok_response ''application/json'' content)))"

text \<open>
  \<open>re.match(r"^/all-packages/since/(\d+)$", path)\<close>: the group is the run of digits after
  the prefix, which must be non-empty and reach the end of the path or one final newline.
\<close>

definition match_since :: "string \<Rightarrow> string option" where
  "match_since path =
     (if startswith path ''/all-packages/since/''
      then (let rest = drop (length ''/all-packages/since/'') path;
                ds = takeWhile is_digit rest;
                after = dropWhile is_digit rest
            in if ds \<noteq> [] \<and> (after = [] \<or> after = [CHR 0x0A]) then Some ds else None)
      else None)"

definition serve_all_packages_since :: "app \<Rightarrow> string \<Rightarrow> response" where
  "serve_all_packages_since a path =
     (case match_since path of
        None \<Rightarrow> error_response 400 ''Invalid since parameter''
      | Some ds \<Rightarrow>
          (let n = int_of_digits ds;
               pkgs = packages (app_registry a);
               total = length pkgs;
               result = (if n \<ge> total then [] else map pkg_id (take (total - n) pkgs))
           in ok_response ''application/json'' (json_dumps (JArr (map JStr result)))))"

text \<open>\<open>s.split(c)\<close>.\<close>

fun split_on :: "char \<Rightarrow> string \<Rightarrow> string list" where
  "split_on c [] = [[]]"
| "split_on c (x # xs) =
     (if x = c then [] # split_on c xs
      else (case split_on c xs of [] \<Rightarrow> [[x]] | y # ys \<Rightarrow> (x # y) # ys))"

text \<open>
  \<open>re.match(r"^/packages/([^/]+)/([^/]+)/([^/]+)/<leaf>$", path)\<close> for a leaf without
  slashes: the path has exactly the segments \<open>packages\<close>, author, name, version and the
  leaf, the three groups are non-empty, and one final newline may follow the leaf.
\<close>

definition match_package_path :: "string \<Rightarrow> string \<Rightarrow> (string \<times> string \<times> string) option" where
  "match_package_path leaf path =
     (case split_on CHR ''/'' path of
        [e, p, author, name, version, l] \<Rightarrow>
          if e = [] \<and> p = ''packages'' \<and> author \<noteq> [] \<and> name \<noteq> [] \<and> version \<noteq> []
             \<and> (l = leaf \<or> l = leaf @ [CHR 0x0A])
          then Some (author, name, version) else None
      | _ \<Rightarrow> None)"

definition serve_endpoint_json :: "world \<Rightarrow> app \<Rightarrow> sys \<Rightarrow> string \<Rightarrow> exn + response" where
  "serve_endpoint_json w a s path =
     (case match_package_path ''endpoint.json'' path of
        None \<Rightarrow> Inr (error_response 400 ''Invalid endpoint path'')
      | Some (author, name, version) \<Rightarrow>
          (let package_id = author @ ''/'' @ name @ ''@'' @ version;
               status = get_package_status (app_registry a) package_id
           in if status = Some STATUS_PENDING
              then Inr (error_response 503
                     (''Package '' @ package_id @ '' has not been downloaded yet''))
              else if status = Some STATUS_FAILED
              then Inr (error_response 503
                     (''Package '' @ package_id @ '' failed to download and is not available''))
              else if status = Some STATUS_IGNORED
              then Inr (error_response 503
                     (''Package '' @ package_id @ '' is not available on this mirror''))
              else (let hash_path = ''packages/'' @ author @ ''/'' @ name @ ''/'' @ version
                                    @ ''/hash.json''
                    in if \<not> path_exists s hash_path
                       then Inr (error_response 404 ''Package hash not found'')
                       else (case read_file s hash_path of
                               Inl e \<Rightarrow> Inl e
                             | Inr text \<Rightarrow>
                                 (case json_loads w text of
                                    Inl e \<Rightarrow> Inl e
                                  | Inr hash_data \<Rightarrow>
                                      (case json_getitem hash_data ''hash'' of
                                         Inl e \<Rightarrow> Inl e
                                       | Inr h \<Rightarrow>
                                           Inr (ok_response ''application/json''
                                             (json_dumps (JObj
                                                [(''url'', JStr (app_base_url a @ ''/packages/''
                                                     @ author @ ''/'' @ name @ ''/'' @ version
                                                     @ ''/package.zip'')),
                                                 (''hash'', h)])))))))))"

definition serve_static_file :: "app \<Rightarrow> sys \<Rightarrow> string \<Rightarrow> exn + response" where
  "serve_static_file a s path =
     (if contains path ''..'' then Inr (error_response 400 ''Invalid path'')
      else (let file_path = lstrip_slash path
            in if \<not> path_exists s file_path \<or> \<not> is_file s file_path
               then Inr (error_response 404 ''File not found'')
               else (let gate =
                           (if endswith path ''/package.zip''
                            then (case match_package_path ''package.zip'' path of
                                    None \<Rightarrow> None
                                  | Some (author, name, version) \<Rightarrow>
                                      (let package_id = author @ ''/'' @ name @ ''@'' @ version;
                                           status = get_package_status (app_registry a) package_id
                                       in if status = Some STATUS_PENDING
                                          then Some (error_response 503
                                                 (''Package '' @ package_id
                                                  @ '' has not been downloaded yet''))
                                          else if status = Some STATUS_FAILED
                                          then Some (error_response 503
                                                 (''Package '' @ package_id @ '' failed to download''))
                                          else if status = Some STATUS_IGNORED
                                          then Some (error_response 503
                                                 (''Package '' @ package_id
                                                  @ '' is not available on this mirror''))
                                          else None))
                            else None)
                     in case gate of
                          Some r \<Rightarrow> Inr r
                        | None \<Rightarrow>
                            (let content_type =
                                   (if endswith path ''.json'' then ''application/json''
                                    else if endswith path ''.zip'' then ''application/zip''
                                    else ''application/octet-stream'')
                             in case read_file s file_path of
                                  Inl e \<Rightarrow> Inl e
                                | Inr content \<Rightarrow> Inr (ok_response content_type content)))))"

text \<open>\<open>__call__\<close>: the request method and \<open>PATH_INFO\<close> decide the route.\<close>

definition call :: "world \<Rightarrow> app \<Rightarrow> sys \<Rightarrow> string \<Rightarrow> string \<Rightarrow> exn + response" where
  "call w a s request_method path =
     (if request_method \<noteq> ''GET'' then Inr (error_response 405 ''Method Not Allowed'')
      else if path = ''/all-packages'' then serve_all_packages s
      else if startswith path ''/all-packages/since/'' then Inr (serve_all_packages_since a path)
      else if startswith path ''/packages/'' \<and> endswith path ''/endpoint.json''
      then serve_endpoint_json w a s path
      else if startswith path ''/packages/'' then serve_static_file a s path
      else Inr (error_response 404 ''Not Found''))"

section \<open>Verify functionality\<close>

text \<open>
  The entries of \<open>errors\<close>. The source formats each as a line of text; only their number
  decides the result, so they are kept as values.
\<close>

datatype verify_error =
    ZipMissing string
  | HashJsonMissing string
  | InvalidHashJson string exn
  | HashMismatch string json string
  | ElmJsonMissing string

text \<open>
  One pass of the loop body of \<open>run_verify\<close>: the error it appends, or none when every
  check passes. The \<open>except\<close> clause around the reading of \<open>hash.json\<close> catches
  \<open>JSONDecodeError\<close> and \<open>KeyError\<close> only; anything else raised there, in
  \<open>parse_package_id\<close> or in \<open>compute_sha1\<close> leaves \<open>run_verify\<close>.
\<close>

definition verify_package :: "world \<Rightarrow> sys \<Rightarrow> string \<Rightarrow> exn + verify_error option" where
  "verify_package w s package_id =
     (case parse_package_id package_id of
        Inl e \<Rightarrow> Inl e
      | Inr (author, name, version) \<Rightarrow>
          (let package_dir = ''packages/'' @ author @ ''/'' @ name @ ''/'' @ version;
               zip_path = package_dir @ ''/package.zip'';
               hash_path = package_dir @ ''/hash.json'';
               elm_json_path = package_dir @ ''/elm.json''
           in if \<not> path_exists s zip_path then Inr (Some (ZipMissing package_id))
              else if \<not> path_exists s hash_path then Inr (Some (HashJsonMissing package_id))
              else (case (case read_file s hash_path of
                            Inl e \<Rightarrow> Inl e
                          | Inr text \<Rightarrow>
                              (case json_loads w text of
                                 Inl e \<Rightarrow> Inl e
                               | Inr hash_data \<Rightarrow> json_getitem hash_data ''hash'')) of
                      Inl JSONDecodeError \<Rightarrow> Inr (Some (InvalidHashJson package_id JSONDecodeError))
                    | Inl (KeyError k) \<Rightarrow> Inr (Some (InvalidHashJson package_id (KeyError k)))
                    | Inl e \<Rightarrow> Inl e
                    | Inr expected_hash \<Rightarrow>
                        (case fst (compute_sha1 zip_path s) of
                           Inl e \<Rightarrow> Inl e
                         | Inr actual_hash \<Rightarrow>
                             if JStr actual_hash \<noteq> expected_hash
                             then Inr (Some (HashMismatch package_id expected_hash actual_hash))
                             else if \<not> path_exists s elm_json_path
                             then Inr (Some (ElmJsonMissing package_id))
                             else Inr None))))"

fun verify_loop ::
  "world \<Rightarrow> sys \<Rightarrow> pkg list \<Rightarrow> verify_error list \<Rightarrow> exn + verify_error list"
where
  "verify_loop w s [] errors = Inr errors"
| "verify_loop w s (p # success_packages) errors =
     (case verify_package w s (pkg_id p) of
        Inl e \<Rightarrow> Inl e
      | Inr None \<Rightarrow> verify_loop w s success_packages errors
      | Inr (Some err) \<Rightarrow> verify_loop w s success_packages (errors @ [err]))"

definition run_verify :: "world \<Rightarrow> sys \<Rightarrow> exn + bool" where
  "run_verify w s =
     (let r = load_registry s
      in if packages r = [] then Inr True
         else (let success_packages = filter (\<lambda>p. pkg_status p = STATUS_SUCCESS) (packages r)
               in case verify_loop w s success_packages [] of
                    Inl e \<Rightarrow> Inl e
                  | Inr errors \<Rightarrow> if errors \<noteq> [] then Inr False else Inr True))"

section \<open>Requests and identifiers as the routes spell them\<close>

text \<open>
  The path of \<open>GET /all-packages/since/{n}\<close>, the path of a file of a package under
  \<open>/packages/\<close>, the identifier \<open>author/name@version\<close> the handlers build from the three
  path segments, and the place of a package's file in the mirror directory.
\<close>

definition since_path :: "nat \<Rightarrow> string" where
  "since_path n = ''/all-packages/since/'' @ str_nat n"

definition package_path :: "string \<Rightarrow> string \<Rightarrow> string \<Rightarrow> string \<Rightarrow> string" where
  "package_path author name version leaf =
     ''/packages/'' @ author @ ''/'' @ name @ ''/'' @ version @ ''/'' @ leaf"

definition render_id :: "string \<Rightarrow> string \<Rightarrow> string \<Rightarrow> string" where
  "render_id author name version = author @ ''/'' @ name @ ''@'' @ version"

definition stored_at :: "string \<Rightarrow> string \<Rightarrow> string \<Rightarrow> string \<Rightarrow> string" where
  "stored_at author name version leaf =
     ''packages/'' @ author @ ''/'' @ name @ ''/'' @ version @ ''/'' @ leaf"

text \<open>A path segment as the route patterns want it: not empty and without a slash.\<close>

definition segment :: "string \<Rightarrow> bool" where
  "segment x = (x \<noteq> [] \<and> CHR ''/'' \<notin> set x)"

section \<open>Notions the properties are stated with\<close>

text \<open>An identifier with the form \<open>author/name@version\<close>: \<open>parse_package_id\<close> accepts it.\<close>

definition well_formed_id :: "string \<Rightarrow> bool" where
  "well_formed_id package_id =
     (case parse_package_id package_id of Inr _ \<Rightarrow> True | Inl _ \<Rightarrow> False)"

text \<open>
  An identifier matches the sync policy when it is one of its entries, or when its
  \<open>author/name\<close> is.
\<close>

definition matches_policy :: "string set \<Rightarrow> string \<Rightarrow> bool" where
  "matches_policy pl package_id =
     (package_id \<in> pl
      \<or> (case parse_package_id package_id of
            Inr (author, name, _) \<Rightarrow> author @ ''/'' @ name \<in> pl
          | Inl _ \<Rightarrow> False))"

text \<open>
  The work-list of a sync run: the upstream identifiers the registry does not know, in
  upstream order and once each, followed by the identifiers of the failed entries.
\<close>

definition work_list :: "string list \<Rightarrow> registry \<Rightarrow> string list" where
  "work_list remote_packages r0 =
     (case discover_new remote_packages r0 (set (map pkg_id (packages r0))) [] of
        (r1, _, new_packages) \<Rightarrow> new_packages @ failed_packages r1)"

text \<open>Writing the registry file never fails.\<close>

definition registry_writable :: "world \<Rightarrow> bool" where
  "registry_writable w =
     (\<forall>t. \<not> disk_fault w t ''registry.json.tmp'' \<and> \<not> disk_fault w t ''registry.json'')"

text \<open>
  The four checks of the verifier on a package, in the words of the specification: the
  archive exists, the digest record exists and parses, the digest of the archive is the
  recorded one, and the manifest exists.
\<close>

definition intact :: "world \<Rightarrow> sys \<Rightarrow> string \<Rightarrow> bool" where
  "intact w s package_id =
     (case parse_package_id package_id of
        Inl _ \<Rightarrow> False
      | Inr (author, name, version) \<Rightarrow>
          (case files s (stored_at author name version ''package.zip'') of
             Some (File archive) \<Rightarrow>
               (case files s (stored_at author name version ''hash.json'') of
                  Some (File raw) \<Rightarrow>
                    (case json_loads w raw of
                       Inr hash_data \<Rightarrow>
                         (case json_getitem hash_data ''hash'' of
                            Inr h \<Rightarrow> h = JStr (sha1_hex archive)
                          | Inl _ \<Rightarrow> False)
                     | Inl _ \<Rightarrow> False)
                | _ \<Rightarrow> False)
           | _ \<Rightarrow> False)
          \<and> path_exists s (stored_at author name version ''elm.json''))"

text \<open>
  A package the verifier can check without an exception leaving it: the identifier is
  well formed, neither \<open>package.zip\<close> nor \<open>hash.json\<close> is a directory, and decoding
  \<open>hash.json\<close> gives an object or fails with one of the two exceptions that are caught.
\<close>

definition checkable :: "world \<Rightarrow> sys \<Rightarrow> string \<Rightarrow> bool" where
  "checkable w s package_id =
     (case parse_package_id package_id of
        Inl _ \<Rightarrow> False
      | Inr (author, name, version) \<Rightarrow>
          files s (stored_at author name version ''package.zip'') \<noteq> Some Dir
          \<and> (case files s (stored_at author name version ''hash.json'') of
                None \<Rightarrow> True
              | Some Dir \<Rightarrow> False
              | Some (File raw) \<Rightarrow>
                  (case json_loads w raw of
                     Inr (JObj _) \<Rightarrow> True
                   | Inr _ \<Rightarrow> False
                   | Inl JSONDecodeError \<Rightarrow> True
                   | Inl (KeyError _) \<Rightarrow> True
                   | Inl _ \<Rightarrow> False)))"

section \<open>A small mirror\<close>

text \<open>
  A registry of four packages, one in each status, newest first; the mirror directory
  after \<open>a/b@1.0.0\<close> has been synced and the archive downloaded for \<open>c/d@2.0.0\<close> did
  not have the expected digest; and an upstream that cannot be reached, with a
  disk that never fails and a decoder that knows two texts: the \<open>hash.json\<close> that
  \<open>sync_package\<close> wrote for \<open>a/b@1.0.0\<close>, and the empty array.
\<close>

definition example_registry :: registry where
  "example_registry =
     \<lparr>packages = [\<lparr>pkg_id = ''g/h@4.0.0'', pkg_status = ''pending''\<rparr>,
                  \<lparr>pkg_id = ''e/f@3.0.0'', pkg_status = ''ignored''\<rparr>,
                  \<lparr>pkg_id = ''c/d@2.0.0'', pkg_status = ''failed''\<rparr>,
                  \<lparr>pkg_id = ''a/b@1.0.0'', pkg_status = ''success''\<rparr>]\<rparr>"

definition example_app :: app where
  "example_app = \<lparr>app_base_url = ''https://mirror.example.com'', app_registry = example_registry\<rparr>"

definition example_hash_json :: bytes where
  "example_hash_json = json_dumps (JObj [(''hash'', JStr (sha1_hex ''archive''))])"

definition example_files :: "string \<Rightarrow> fs_entry option" where
  "example_files =
     [''packages/a/b/1.0.0/package.zip'' \<mapsto> File ''archive'',
      ''packages/a/b/1.0.0/hash.json'' \<mapsto> File example_hash_json,
      ''packages/a/b/1.0.0/elm.json'' \<mapsto> File ''{}'',
      ''packages/c/d/2.0.0/package.zip'' \<mapsto> File ''corrupt'']"

definition example_sys :: sys where
  "example_sys =
     \<lparr>files = example_files, registry_json = Some example_registry, clock = 0, attempted = []\<rparr>"

definition example_loads :: "bytes \<Rightarrow> exn + json" where
  "example_loads text =
     (if text = example_hash_json then Inr (JObj [(''hash'', JStr (sha1_hex ''archive''))])
      else if text = ''[]'' then Inr (JArr [])
      else Inl JSONDecodeError)"

definition fresh_sys :: sys where
  "fresh_sys = \<lparr>files = Map.empty, registry_json = None, clock = 0, attempted = []\<rparr>"

definition example_world :: world where
  "example_world =
     \<lparr>urlopen = (\<lambda>t url. Inl URLError), disk_fault = (\<lambda>t path. False),
      json_loads = example_loads, json_dumps_indent = json_dumps\<rparr>"

section \<open>Properties\<close>

subsection \<open>Registry upsert\<close>

lemma find_status_upsert:
  "find_status (upsert_status ps i s) i = Some s"
  by (induction ps) auto

lemma upsert_status_present:
  "i \<in> pkg_id ` set ps \<Longrightarrow>
   upsert_status ps i s =
     ps[length (takeWhile (\<lambda>p. pkg_id p \<noteq> i) ps) := \<lparr>pkg_id = i, pkg_status = s\<rparr>]"
  by (induction ps) auto

lemma upsert_status_absent:
  "i \<notin> pkg_id ` set ps \<Longrightarrow> upsert_status ps i s = ps @ [\<lparr>pkg_id = i, pkg_status = s\<rparr>]"
  by (induction ps) auto

lemma upsert_status_idem:
  "upsert_status (upsert_status ps i s) i s = upsert_status ps i s"
  by (induction ps) auto

text \<open>
  Claim C6. For every registry, identifier and status, \<open>set_package_status\<close> followed by
  \<open>get_package_status\<close> on the same identifier returns the status just set, whatever the
  registry held before. When the identifier is present, the first entry carrying it is
  overwritten where it stands; otherwise a new entry is appended at the end. Setting the
  same status twice gives the same registry as setting it once.
\<close>

theorem set_then_get_status:
  "get_package_status (set_package_status registry package_id status) package_id = Some status
   \<and> packages (set_package_status registry package_id status) =
       (if package_id \<in> pkg_id ` set (packages registry)
        then (packages registry)
               [length (takeWhile (\<lambda>p. pkg_id p \<noteq> package_id) (packages registry)) :=
                  \<lparr>pkg_id = package_id, pkg_status = status\<rparr>]
        else packages registry @ [\<lparr>pkg_id = package_id, pkg_status = status\<rparr>])
   \<and> set_package_status (set_package_status registry package_id status) package_id status =
       set_package_status registry package_id status"
  by (simp add: get_package_status_def set_package_status_def find_status_upsert
      upsert_status_present upsert_status_absent upsert_status_idem)

theorem set_then_get_status_witness:
  "get_package_status
     (set_package_status
        \<lparr>packages = [\<lparr>pkg_id = ''a/b@1.0.0'', pkg_status = ''pending''\<rparr>,
                     \<lparr>pkg_id = ''c/d@2.0.0'', pkg_status = ''failed''\<rparr>]\<rparr>
        ''c/d@2.0.0'' ''success'')
     ''c/d@2.0.0'' = Some ''success''
   \<and> packages
       (set_package_status
          \<lparr>packages = [\<lparr>pkg_id = ''a/b@1.0.0'', pkg_status = ''pending''\<rparr>,
                       \<lparr>pkg_id = ''c/d@2.0.0'', pkg_status = ''failed''\<rparr>]\<rparr>
          ''c/d@2.0.0'' ''success'') =
       [\<lparr>pkg_id = ''a/b@1.0.0'', pkg_status = ''pending''\<rparr>,
        \<lparr>pkg_id = ''c/d@2.0.0'', pkg_status = ''success''\<rparr>]
   \<and> packages
       (set_package_status
          \<lparr>packages = [\<lparr>pkg_id = ''a/b@1.0.0'', pkg_status = ''pending''\<rparr>]\<rparr>
          ''c/d@2.0.0'' ''ignored'') =
       [\<lparr>pkg_id = ''a/b@1.0.0'', pkg_status = ''pending''\<rparr>,
        \<lparr>pkg_id = ''c/d@2.0.0'', pkg_status = ''ignored''\<rparr>]"
  using set_then_get_status
          [of "\<lparr>packages = [\<lparr>pkg_id = ''a/b@1.0.0'', pkg_status = ''pending''\<rparr>,
                              \<lparr>pkg_id = ''c/d@2.0.0'', pkg_status = ''failed''\<rparr>]\<rparr>"
              "''c/d@2.0.0''" "''success''"]
        set_then_get_status
          [of "\<lparr>packages = [\<lparr>pkg_id = ''a/b@1.0.0'', pkg_status = ''pending''\<rparr>]\<rparr>"
              "''c/d@2.0.0''" "''ignored''"]
  by simp

subsection \<open>Streaming digest\<close>

lemma absorb_append:
  "absorb h (xs @ ys) = (case absorb h xs of (h', r) \<Rightarrow> absorb h' (r @ ys))"
proof (induction h xs rule: absorb.induct)
  case (1 h data)
  show ?case
  proof (cases "length data < 64")
    case True
    then show ?thesis by (simp add: absorb.simps [of h data])
  next
    case False
    then have "absorb h (data @ ys) =
        absorb (sha1_compress h (take 64 data)) (drop 64 data @ ys)"
      by (simp add: absorb.simps [of h "data @ ys"])
    with False 1 show ?thesis by (simp add: absorb.simps [of h data])
  qed
qed

lemma sha1_update_append:
  "sha1_update (sha1_update obj a) b = sha1_update obj (a @ b)"
  using absorb_append [of "chain obj" "pending obj @ a" b]
  by (simp add: sha1_update_def split: prod.splits)

lemma sha1_update_nil: "sha1_update sha1_new [] = sha1_new"
  by (simp add: sha1_update_def sha1_new_def absorb.simps [of _ "[]"])

lemma read_chunks_update:
  "0 < n \<Longrightarrow> read_chunks n rest (sha1_update obj pre) = sha1_update obj (pre @ rest)"
proof (induction n rest "sha1_update obj pre" arbitrary: pre rule: read_chunks.induct)
  case (1 n rest)
  show ?case
  proof (cases "take n rest = []")
    case True
    with 1(2) have "rest = []" by simp
    then show ?thesis by (simp add: read_chunks.simps [of n "[]"])
  next
    case False
    have "read_chunks n rest (sha1_update obj pre) =
        read_chunks n (drop n rest) (sha1_update obj (pre @ take n rest))"
      using False by (simp add: read_chunks.simps [of n rest] sha1_update_append)
    also have "\<dots> = sha1_update obj ((pre @ take n rest) @ drop n rest)"
      using 1(1) [of "take n rest" "pre @ take n rest"] False 1(2)
      by (simp add: sha1_update_append)
    finally show ?thesis by simp
  qed
qed

text \<open>
  Claim C7. For every file contents and every positive chunk size, the digest computed
  by feeding the file to the hash object chunk by chunk equals the digest of the whole
  contents fed at once; in particular the digest \<open>compute_sha1\<close> computes with its
  8192-byte reads is the digest for any other positive chunk size.
\<close>

theorem compute_sha1_chunk_size_independent:
  "0 < n \<Longrightarrow>
     compute_sha1_chunked n contents = sha1_hex contents
     \<and> compute_sha1_chunked 8192 contents = compute_sha1_chunked n contents
     \<and> (files s file_path = Some (File contents) \<longrightarrow>
          compute_sha1 file_path s = (Inr (compute_sha1_chunked n contents), s))"
  using read_chunks_update [of n contents sha1_new "[]"]
        read_chunks_update [of 8192 contents sha1_new "[]"]
  by (simp add: compute_sha1_def read_file_def compute_sha1_chunked_def sha1_hex_def
      sha1_update_nil)

theorem compute_sha1_chunk_size_independent_witness:
  "(0::nat) < 3
   \<and> compute_sha1_chunked 3 ''archive'' = sha1_hex ''archive''
   \<and> compute_sha1_chunked 8192 ''archive'' = compute_sha1_chunked 3 ''archive''
   \<and> files example_sys ''packages/a/b/1.0.0/package.zip'' = Some (File ''archive'')
   \<and> compute_sha1 ''packages/a/b/1.0.0/package.zip'' example_sys =
       (Inr (compute_sha1_chunked 3 ''archive''), example_sys)"
  using compute_sha1_chunk_size_independent
          [of 3 "''archive''" example_sys "''packages/a/b/1.0.0/package.zip''"]
  by (simp add: example_sys_def example_files_def)

subsection \<open>The catalog delta\<close>

lemma digit_char_props:
  "d < 10 \<Longrightarrow> is_digit (digit_char d) \<and> digit_val (digit_char d) = d"
proof -
  assume "d < 10"
  then have "d \<in> {0, 1, 2, 3, 4, 5, 6, 7, 8, 9}" by auto
  then show ?thesis
    by (auto simp: is_digit_def digit_char_def digit_val_def)
qed

lemma str_nat_digits: "list_all is_digit (str_nat n)"
proof (induction n rule: str_nat.induct)
  case (1 n)
  show ?case
  proof (cases "n < 10")
    case True
    then show ?thesis by (simp add: str_nat.simps [of n] digit_char_props)
  next
    case False
    then show ?thesis using 1
      by (simp add: str_nat.simps [of n] digit_char_props)
  qed
qed

lemma str_nat_nonempty: "str_nat n \<noteq> []"
  by (simp add: str_nat.simps [of n])

lemma int_of_digits_snoc:
  "int_of_digits (ds @ [c]) = 10 * int_of_digits ds + digit_val c"
  by (simp add: int_of_digits_def)

lemma int_of_digits_str_nat: "int_of_digits (str_nat n) = n"
proof (induction n rule: str_nat.induct)
  case (1 n)
  show ?case
  proof (cases "n < 10")
    case True
    then show ?thesis
      by (simp add: str_nat.simps [of n] int_of_digits_def digit_char_props)
  next
    case False
    then show ?thesis using 1
      by (simp add: str_nat.simps [of n] int_of_digits_snoc digit_char_props)
  qed
qed

lemma match_since_str_nat: "match_since (since_path n) = Some (str_nat n)"
proof -
  have h1: "takeWhile is_digit (str_nat n) = str_nat n"
    using str_nat_digits [of n] by (simp add: list_all_iff)
  show ?thesis
    using str_nat_digits [of n]
    by (simp add: since_path_def match_since_def startswith_def str_nat_nonempty Let_def h1
        list_all_iff)
qed

lemma serve_since_str_nat:
  "serve_all_packages_since a (since_path n) =
     ok_response ''application/json''
       (json_dumps (JArr (map JStr
          (map pkg_id (take (length (packages (app_registry a)) - n) (packages (app_registry a)))))))"
  by (simp add: serve_all_packages_since_def match_since_str_nat int_of_digits_str_nat Let_def
      comp_def)

lemma call_since:
  "call w a s ''GET'' (since_path n) = Inr (serve_all_packages_since a (since_path n))"
  by (simp add: call_def startswith_def since_path_def)



lemma since_path_small:
  "since_path 0 = ''/all-packages/since/0''" "since_path (Suc 0) = ''/all-packages/since/1''"
  by (simp_all add: since_path_def str_nat.simps [of 0] str_nat.simps [of "Suc 0"] digit_char_def)



subsection \<open>Routes under \<open>/packages/\<close>\<close>

lemma split_on_nonempty: "split_on c xs \<noteq> []"
  by (induction xs) (auto split: list.splits)

lemma split_on_no_sep: "c \<notin> set a \<Longrightarrow> split_on c a = [a]"
  by (induction a) auto

lemma split_on_append:
  "c \<notin> set a \<Longrightarrow> split_on c (a @ c # rest) = a # split_on c rest"
  by (induction a) auto

lemma match_package_path_ok:
  assumes "segment author" "segment name" "segment version" "CHR ''/'' \<notin> set leaf"
  shows "match_package_path leaf (package_path author name version leaf) =
           Some (author, name, version)"
proof -
  have "split_on CHR ''/'' (package_path author name version leaf) =
          [[], ''packages'', author, name, version, leaf]"
    using assms
    by (simp add: package_path_def segment_def split_on_append split_on_no_sep)
  then show ?thesis
    using assms by (simp add: match_package_path_def segment_def)
qed

lemma status_lines:
  "status_line (error_response 400 m) = ''400 Bad Request''"
  "status_line (error_response 404 m) = ''404 Not Found''"
  "status_line (error_response 503 m) = ''503 Service Unavailable''"
  by (simp_all add: error_response_def Let_def digit_char_def
      str_nat.simps [of 400] str_nat.simps [of 404] str_nat.simps [of 503]
      str_nat.simps [of 40] str_nat.simps [of 50] str_nat.simps [of 4] str_nat.simps [of 5])

lemma escape_plain:
  "concat (map json_escape_char ''has not been downloaded yet'') = ''has not been downloaded yet''"
  by (simp add: json_escape_char_def)

lemma contains_json_string:
  assumes "concat (map json_escape_char q) = q"
  shows "contains (json_string (p @ q @ r)) q"
proof -
  have "json_string (p @ q @ r) =
      (CHR 0x22 # concat (map json_escape_char p)) @ q @ (concat (map json_escape_char r) @ [CHR 0x22])"
    using assms by (simp add: json_string_def)
  then show ?thesis
    unfolding contains_def by (metis sublist_appendI)
qed

lemma contains_error_body:
  assumes "contains (json_string m) q"
  shows "contains (body (error_response c m)) q"
proof -
  have "body (error_response c m) = (''{'' @ json_string ''error'' @ '': '') @ json_string m @ ''}''"
    by (simp add: error_response_def Let_def)
  moreover from assms obtain u v where "json_string m = u @ q @ v"
    unfolding contains_def sublist_def by blast
  ultimately have
    "body (error_response c m) = ((''{'' @ json_string ''error'' @ '': '') @ u) @ q @ (v @ ''}'')"
    by simp
  then show ?thesis
    unfolding contains_def by (metis sublist_appendI)
qed

lemma pending_body_contains:
  "contains (body (error_response c (''Package '' @ pid @ '' has not been downloaded yet'')))
     ''has not been downloaded yet''"
proof -
  have "''Package '' @ pid @ '' has not been downloaded yet'' =
      (''Package '' @ pid @ '' '') @ ''has not been downloaded yet'' @ []"
    by simp
  then show ?thesis
    using contains_error_body [OF contains_json_string [OF escape_plain]] by metis
qed

lemma package_path_routes:
  "package_path author name version leaf \<noteq> ''/all-packages''"
  "\<not> startswith (package_path author name version leaf) ''/all-packages/since/''"
  "startswith (package_path author name version leaf) ''/packages/''"
  "lstrip_slash (package_path author name version leaf) = stored_at author name version leaf"
  by (simp_all add: package_path_def startswith_def lstrip_slash_def stored_at_def)

lemma endswith_leaf: "endswith (package_path author name version leaf) (''/'' @ leaf)"
  by (simp add: endswith_def package_path_def suffix_def)

lemma endswith_zip_not_endpoint:
  "\<not> endswith (package_path author name version ''package.zip'') ''/endpoint.json''"
  "endswith (package_path author name version ''package.zip'') ''.zip''"
  "\<not> endswith (package_path author name version ''package.zip'') ''.json''"
  by (simp_all add: endswith_def package_path_def suffix_to_prefix)

lemma call_endpoint_json:
  "call w a s ''GET'' (package_path author name version ''endpoint.json'') =
     serve_endpoint_json w a s (package_path author name version ''endpoint.json'')"
  using endswith_leaf [of author name version "''endpoint.json''"]
  by (simp add: call_def package_path_routes)

lemma call_package_zip:
  "call w a s ''GET'' (package_path author name version ''package.zip'') =
     serve_static_file a s (package_path author name version ''package.zip'')"
  by (simp add: call_def package_path_routes endswith_zip_not_endpoint)

lemma serve_endpoint_json_cases:
  assumes "segment author" "segment name" "segment version"
  shows "serve_endpoint_json w a s (package_path author name version ''endpoint.json'') =
     (let package_id = render_id author name version;
          status = get_package_status (app_registry a) package_id
      in if status = Some STATUS_PENDING
         then Inr (error_response 503 (''Package '' @ package_id @ '' has not been downloaded yet''))
         else if status = Some STATUS_FAILED
         then Inr (error_response 503
                (''Package '' @ package_id @ '' failed to download and is not available''))
         else if status = Some STATUS_IGNORED
         then Inr (error_response 503 (''Package '' @ package_id @ '' is not available on this mirror''))
         else (case files s (stored_at author name version ''hash.json'') of
                 None \<Rightarrow> Inr (error_response 404 ''Package hash not found'')
               | Some Dir \<Rightarrow> Inl OSError
               | Some (File text) \<Rightarrow>
                   (case json_loads w text of
                      Inl e \<Rightarrow> Inl e
                    | Inr hash_data \<Rightarrow>
                        (case json_getitem hash_data ''hash'' of
                           Inl e \<Rightarrow> Inl e
                         | Inr h \<Rightarrow>
                             Inr (ok_response ''application/json''
                                   (json_dumps (JObj
                                      [(''url'', JStr (app_base_url a
                                           @ package_path author name version ''package.zip'')),
                                       (''hash'', h)])))))))"
  using match_package_path_ok [OF assms, of "''endpoint.json''"]
  by (simp add: serve_endpoint_json_def Let_def render_id_def stored_at_def path_exists_def
      read_file_def package_path_def [of _ _ _ "''package.zip''"]
      split: option.splits fs_entry.splits sum.splits del: json_dumps.simps)

lemma status_distinct:
  "STATUS_SUCCESS \<noteq> STATUS_PENDING" "STATUS_SUCCESS \<noteq> STATUS_FAILED"
  "STATUS_SUCCESS \<noteq> STATUS_IGNORED" "STATUS_PENDING \<noteq> STATUS_FAILED"
  "STATUS_PENDING \<noteq> STATUS_IGNORED" "STATUS_FAILED \<noteq> STATUS_IGNORED"
  "STATUS_PENDING \<noteq> STATUS_SUCCESS" "STATUS_FAILED \<noteq> STATUS_SUCCESS"
  "STATUS_IGNORED \<noteq> STATUS_SUCCESS" "STATUS_FAILED \<noteq> STATUS_PENDING"
  "STATUS_IGNORED \<noteq> STATUS_PENDING" "STATUS_IGNORED \<noteq> STATUS_FAILED"
  by (simp_all add: STATUS_SUCCESS_def STATUS_PENDING_def STATUS_FAILED_def STATUS_IGNORED_def)

lemma body_error_json:
  "body (error_response c m) = json_dumps (JObj [(''error'', JStr m)])"
  by (simp add: error_response_def Let_def)

text \<open>
  Claim C3, as the code has it. For every \<open>GET\<close> of
  \<open>/packages/author/name/version/endpoint.json\<close> with three non-empty, slash-free
  segments: when the registry status of \<open>author/name@version\<close> is pending, failed or
  ignored the answer is 503 with the JSON body \<open>{"error": message}\<close> and a message of
  its own for each status (for pending the body contains "has not been downloaded
  yet"). When the status is success and \<open>hash.json\<close> is a stored file that decodes to an
  object with a \<open>hash\<close> member, the answer is 200 with \<open>{url, hash}\<close>, the url being the
  application's base URL followed by \<open>/packages/author/name/version/package.zip\<close> and
  the hash the stored one. When the status is success and \<open>hash.json\<close> is missing, the
  answer is 404.
\<close>

theorem endpoint_json_by_status:
  assumes "segment author" "segment name" "segment version"
  shows
    "(get_package_status (app_registry a) (render_id author name version) = Some STATUS_PENDING \<longrightarrow>
        call w a s ''GET'' (package_path author name version ''endpoint.json'') =
          Inr (error_response 503
                 (''Package '' @ render_id author name version @ '' has not been downloaded yet''))
        \<and> contains
            (body (error_response 503
                     (''Package '' @ render_id author name version @ '' has not been downloaded yet'')))
            ''has not been downloaded yet'')
     \<and> (get_package_status (app_registry a) (render_id author name version) = Some STATUS_FAILED \<longrightarrow>
          call w a s ''GET'' (package_path author name version ''endpoint.json'') =
            Inr (error_response 503
                   (''Package '' @ render_id author name version
                    @ '' failed to download and is not available'')))
     \<and> (get_package_status (app_registry a) (render_id author name version) = Some STATUS_IGNORED \<longrightarrow>
          call w a s ''GET'' (package_path author name version ''endpoint.json'') =
            Inr (error_response 503
                   (''Package '' @ render_id author name version @ '' is not available on this mirror'')))
     \<and> status_line (error_response 503 message) = ''503 Service Unavailable''
     \<and> body (error_response 503 message) = json_dumps (JObj [(''error'', JStr message)])
     \<and> (get_package_status (app_registry a) (render_id author name version) = Some STATUS_SUCCESS
          \<and> files s (stored_at author name version ''hash.json'') = Some (File raw)
          \<and> json_loads w raw = Inr hash_data
          \<and> json_getitem hash_data ''hash'' = Inr h \<longrightarrow>
          call w a s ''GET'' (package_path author name version ''endpoint.json'') =
            Inr (ok_response ''application/json''
                   (json_dumps (JObj
                      [(''url'', JStr (app_base_url a @ package_path author name version ''package.zip'')),
                       (''hash'', h)]))))
     \<and> (get_package_status (app_registry a) (render_id author name version) = Some STATUS_SUCCESS
          \<and> files s (stored_at author name version ''hash.json'') = None \<longrightarrow>
          call w a s ''GET'' (package_path author name version ''endpoint.json'') =
            Inr (error_response 404 ''Package hash not found''))"
  using pending_body_contains [of 503 "render_id author name version"]
  by (simp add: call_endpoint_json serve_endpoint_json_cases [OF assms] status_distinct
      status_lines Let_def body_error_json
      del: json_dumps.simps)


theorem endpoint_json_by_status_witness:
  "segment ''g'' \<and> segment ''h'' \<and> segment ''4.0.0''
   \<and> get_package_status (app_registry example_app) (render_id ''g'' ''h'' ''4.0.0'') =
       Some STATUS_PENDING
   \<and> call example_world example_app example_sys ''GET''
         (package_path ''g'' ''h'' ''4.0.0'' ''endpoint.json'') =
       Inr (error_response 503 ''Package g/h@4.0.0 has not been downloaded yet'')
   \<and> segment ''a'' \<and> segment ''b'' \<and> segment ''1.0.0''
   \<and> get_package_status (app_registry example_app) (render_id ''a'' ''b'' ''1.0.0'') =
       Some STATUS_SUCCESS
   \<and> files example_sys (stored_at ''a'' ''b'' ''1.0.0'' ''hash.json'') = Some (File example_hash_json)
   \<and> json_loads example_world example_hash_json = Inr (JObj [(''hash'', JStr (sha1_hex ''archive''))])
   \<and> json_getitem (JObj [(''hash'', JStr (sha1_hex ''archive''))]) ''hash'' =
       Inr (JStr (sha1_hex ''archive''))
   \<and> call example_world example_app example_sys ''GET''
         (package_path ''a'' ''b'' ''1.0.0'' ''endpoint.json'') =
       Inr (ok_response ''application/json''
              (json_dumps (JObj
                 [(''url'', JStr ''https://mirror.example.com/packages/a/b/1.0.0/package.zip''),
                  (''hash'', JStr (sha1_hex ''archive''))])))"
proof -
  have seg: "segment ''g''" "segment ''h''" "segment ''4.0.0''"
    "segment ''a''" "segment ''b''" "segment ''1.0.0''"
    by (simp_all add: segment_def)
  have st: "get_package_status (app_registry example_app) (render_id ''g'' ''h'' ''4.0.0'') =
      Some STATUS_PENDING"
    "get_package_status (app_registry example_app) (render_id ''a'' ''b'' ''1.0.0'') =
      Some STATUS_SUCCESS"
    by (simp_all add: example_app_def example_registry_def render_id_def get_package_status_def
        STATUS_PENDING_def STATUS_SUCCESS_def)
  have fs: "files example_sys (stored_at ''a'' ''b'' ''1.0.0'' ''hash.json'') =
      Some (File example_hash_json)"
    by (simp add: example_sys_def example_files_def stored_at_def)
  have ld: "json_loads example_world example_hash_json =
      Inr (JObj [(''hash'', JStr (sha1_hex ''archive''))])"
    by (simp add: example_world_def example_loads_def)
  have gi: "json_getitem (JObj [(''hash'', JStr (sha1_hex ''archive''))]) ''hash'' =
      Inr (JStr (sha1_hex ''archive''))"
    by (simp add: json_getitem_def)
  have url: "app_base_url example_app @ package_path ''a'' ''b'' ''1.0.0'' ''package.zip'' =
      ''https://mirror.example.com/packages/a/b/1.0.0/package.zip''"
    by (simp add: example_app_def package_path_def)
  have msg: "''Package '' @ render_id ''g'' ''h'' ''4.0.0'' @ '' has not been downloaded yet'' =
      ''Package g/h@4.0.0 has not been downloaded yet''"
    by (simp add: render_id_def)
  from endpoint_json_by_status [OF seg(1-3), where a = example_app and w = example_world
      and s = example_sys]
  have p: "call example_world example_app example_sys ''GET''
         (package_path ''g'' ''h'' ''4.0.0'' ''endpoint.json'') =
       Inr (error_response 503 ''Package g/h@4.0.0 has not been downloaded yet'')"
    using st(1) unfolding msg by blast
  from endpoint_json_by_status [OF seg(4-6), where a = example_app and w = example_world
      and s = example_sys and raw = example_hash_json
      and hash_data = "JObj [(''hash'', JStr (sha1_hex ''archive''))]"
      and h = "JStr (sha1_hex ''archive'')"]
  have q: "call example_world example_app example_sys ''GET''
         (package_path ''a'' ''b'' ''1.0.0'' ''endpoint.json'') =
       Inr (ok_response ''application/json''
              (json_dumps (JObj
                 [(''url'', JStr ''https://mirror.example.com/packages/a/b/1.0.0/package.zip''),
                  (''hash'', JStr (sha1_hex ''archive''))])))"
    using st(2) fs ld gi unfolding url by blast
  from seg st fs ld gi p q show ?thesis by blast
qed

text \<open>
  The claim as first stated promises 200 whenever the status is success. With the
  package files of \<open>a/b@1.0.0\<close> gone from the mirror directory the route answers 404; and
  with a \<open>hash.json\<close> that holds \<open>[]\<close> the subscript raises and no response is made.
\<close>

theorem endpoint_json_success_without_hash_counterexample:
  "get_package_status (app_registry example_app) (render_id ''a'' ''b'' ''1.0.0'') =
     Some STATUS_SUCCESS
   \<and> call example_world example_app (example_sys\<lparr>files := Map.empty\<rparr>) ''GET''
         ''/packages/a/b/1.0.0/endpoint.json'' =
       Inr (error_response 404 ''Package hash not found'')
   \<and> status_line (error_response 404 ''Package hash not found'') = ''404 Not Found''
   \<and> json_loads example_world ''[]'' = Inr (JArr [])
   \<and> call example_world example_app
         (example_sys\<lparr>files := (files example_sys)(''packages/a/b/1.0.0/hash.json'' \<mapsto> File ''[]'')\<rparr>)
         ''GET'' ''/packages/a/b/1.0.0/endpoint.json'' =
       Inl TypeError"
proof -
  have seg: "segment ''a''" "segment ''b''" "segment ''1.0.0''"
    by (simp_all add: segment_def)
  have st: "get_package_status (app_registry example_app) (render_id ''a'' ''b'' ''1.0.0'') =
      Some STATUS_SUCCESS"
    by (simp add: example_app_def example_registry_def render_id_def get_package_status_def
        STATUS_SUCCESS_def)
  have pth: "package_path ''a'' ''b'' ''1.0.0'' ''endpoint.json'' = ''/packages/a/b/1.0.0/endpoint.json''"
    by (simp add: package_path_def)
  have ld: "json_loads example_world ''[]'' = Inr (JArr [])"
    by (simp add: example_world_def example_loads_def example_hash_json_def)
  have a: "call example_world example_app (example_sys\<lparr>files := Map.empty\<rparr>) ''GET''
         (package_path ''a'' ''b'' ''1.0.0'' ''endpoint.json'') =
       Inr (error_response 404 ''Package hash not found'')"
    using st by (simp add: call_endpoint_json serve_endpoint_json_cases [OF seg] status_distinct)
  have b: "call example_world example_app
         (example_sys\<lparr>files := (files example_sys)(''packages/a/b/1.0.0/hash.json'' \<mapsto> File ''[]'')\<rparr>)
         ''GET'' (package_path ''a'' ''b'' ''1.0.0'' ''endpoint.json'') =
       Inl TypeError"
    using st ld
    by (simp add: call_endpoint_json serve_endpoint_json_cases [OF seg] status_distinct
        stored_at_def json_getitem_def)
  from a b st ld show ?thesis by (simp add: pth status_lines)
qed

lemma serve_static_file_zip_cases:
  assumes "segment author" "segment name" "segment version"
  shows "serve_static_file a s (package_path author name version ''package.zip'') =
     (if contains (package_path author name version ''package.zip'') ''..''
      then Inr (error_response 400 ''Invalid path'')
      else (case files s (stored_at author name version ''package.zip'') of
              Some (File content) \<Rightarrow>
                (let package_id = render_id author name version;
                     status = get_package_status (app_registry a) package_id
                 in if status = Some STATUS_PENDING
                    then Inr (error_response 503
                           (''Package '' @ package_id @ '' has not been downloaded yet''))
                    else if status = Some STATUS_FAILED
                    then Inr (error_response 503 (''Package '' @ package_id @ '' failed to download''))
                    else if status = Some STATUS_IGNORED
                    then Inr (error_response 503
                           (''Package '' @ package_id @ '' is not available on this mirror''))
                    else Inr (ok_response ''application/zip'' content))
            | _ \<Rightarrow> Inr (error_response 404 ''File not found'')))"
  using match_package_path_ok [OF assms, of "''package.zip''"]
        endswith_leaf [of author name version "''package.zip''"]
  by (simp add: serve_static_file_def Let_def render_id_def path_exists_def is_file_def
      read_file_def package_path_routes endswith_zip_not_endpoint
      split: option.splits fs_entry.splits)

lemma status_line_ok: "status_line (ok_response t c) = ''200 OK''"
  by (simp add: ok_response_def)



lemma example_no_dots:
  "\<not> contains (package_path ''c'' ''d'' ''2.0.0'' ''package.zip'') ''..''"
  "\<not> contains (package_path ''g'' ''h'' ''4.0.0'' ''package.zip'') ''..''"
  "\<not> contains (package_path ''a'' ''b'' ''1.0.0'' ''package.zip'') ''..''"
  by code_simp+



text \<open>
  Claim C10, as the code has it. For an identifier with no registry entry the two routes
  are not gated: \<open>endpoint.json\<close> answers 404 when \<open>hash.json\<close> is missing and 200 with
  \<open>{url, hash}\<close> when \<open>hash.json\<close> is a stored file that decodes to an object with a \<open>hash\<close>
  member; \<open>package.zip\<close> answers 400 to a path containing \<open>..\<close>, and otherwise 200 with
  the bytes of the archive when it is a regular file of the mirror directory and 404 when
  it is not. On both routes an answer of 503 is given only when the registry status is
  pending, failed or ignored.
\<close>

theorem unregistered_package_routes:
  assumes "segment author" "segment name" "segment version"
  shows
    "(get_package_status (app_registry a) (render_id author name version) = None \<longrightarrow>
        (files s (stored_at author name version ''hash.json'') = None \<longrightarrow>
           call w a s ''GET'' (package_path author name version ''endpoint.json'') =
             Inr (error_response 404 ''Package hash not found''))
        \<and> (files s (stored_at author name version ''hash.json'') = Some (File raw)
             \<and> json_loads w raw = Inr hash_data \<and> json_getitem hash_data ''hash'' = Inr h \<longrightarrow>
             call w a s ''GET'' (package_path author name version ''endpoint.json'') =
               Inr (ok_response ''application/json''
                      (json_dumps (JObj
                         [(''url'', JStr (app_base_url a
                              @ package_path author name version ''package.zip'')),
                          (''hash'', h)]))))
        \<and> (contains (package_path author name version ''package.zip'') ''..'' \<longrightarrow>
             call w a s ''GET'' (package_path author name version ''package.zip'') =
               Inr (error_response 400 ''Invalid path''))
        \<and> (\<not> contains (package_path author name version ''package.zip'') ''..''
             \<and> files s (stored_at author name version ''package.zip'') = Some (File content) \<longrightarrow>
             call w a s ''GET'' (package_path author name version ''package.zip'') =
               Inr (ok_response ''application/zip'' content))
        \<and> (\<not> contains (package_path author name version ''package.zip'') ''..''
             \<and> \<not> is_file s (stored_at author name version ''package.zip'') \<longrightarrow>
             call w a s ''GET'' (package_path author name version ''package.zip'') =
               Inr (error_response 404 ''File not found'')))
     \<and> (call w a s ''GET'' (package_path author name version ''endpoint.json'') = Inr r
          \<and> status_line r = ''503 Service Unavailable'' \<longrightarrow>
          get_package_status (app_registry a) (render_id author name version)
            \<in> {Some STATUS_PENDING, Some STATUS_FAILED, Some STATUS_IGNORED})
     \<and> (call w a s ''GET'' (package_path author name version ''package.zip'') = Inr r'
          \<and> status_line r' = ''503 Service Unavailable'' \<longrightarrow>
          get_package_status (app_registry a) (render_id author name version)
            \<in> {Some STATUS_PENDING, Some STATUS_FAILED, Some STATUS_IGNORED})"
proof -
  have e: "call w a s ''GET'' (package_path author name version ''endpoint.json'') = Inr r
      \<Longrightarrow> status_line r = ''503 Service Unavailable''
      \<Longrightarrow> get_package_status (app_registry a) (render_id author name version)
            \<in> {Some STATUS_PENDING, Some STATUS_FAILED, Some STATUS_IGNORED}"
    by (auto simp: call_endpoint_json serve_endpoint_json_cases [OF assms] Let_def status_lines
        status_line_ok split: if_splits option.splits fs_entry.splits sum.splits
        simp del: json_dumps.simps)
  have z: "call w a s ''GET'' (package_path author name version ''package.zip'') = Inr r'
      \<Longrightarrow> status_line r' = ''503 Service Unavailable''
      \<Longrightarrow> get_package_status (app_registry a) (render_id author name version)
            \<in> {Some STATUS_PENDING, Some STATUS_FAILED, Some STATUS_IGNORED}"
    by (auto simp: call_package_zip serve_static_file_zip_cases [OF assms] Let_def status_lines
        status_line_ok split: if_splits option.splits fs_entry.splits)
  have n: "get_package_status (app_registry a) (render_id author name version) = None \<Longrightarrow>
        (files s (stored_at author name version ''hash.json'') = None \<longrightarrow>
           call w a s ''GET'' (package_path author name version ''endpoint.json'') =
             Inr (error_response 404 ''Package hash not found''))
        \<and> (files s (stored_at author name version ''hash.json'') = Some (File raw)
             \<and> json_loads w raw = Inr hash_data \<and> json_getitem hash_data ''hash'' = Inr h \<longrightarrow>
             call w a s ''GET'' (package_path author name version ''endpoint.json'') =
               Inr (ok_response ''application/json''
                      (json_dumps (JObj
                         [(''url'', JStr (app_base_url a
                              @ package_path author name version ''package.zip'')),
                          (''hash'', h)]))))
        \<and> (contains (package_path author name version ''package.zip'') ''..'' \<longrightarrow>
             call w a s ''GET'' (package_path author name version ''package.zip'') =
               Inr (error_response 400 ''Invalid path''))
        \<and> (\<not> contains (package_path author name version ''package.zip'') ''..''
             \<and> files s (stored_at author name version ''package.zip'') = Some (File content) \<longrightarrow>
             call w a s ''GET'' (package_path author name version ''package.zip'') =
               Inr (ok_response ''application/zip'' content))
        \<and> (\<not> contains (package_path author name version ''package.zip'') ''..''
             \<and> \<not> is_file s (stored_at author name version ''package.zip'') \<longrightarrow>
             call w a s ''GET'' (package_path author name version ''package.zip'') =
               Inr (error_response 404 ''File not found''))"
    by (auto simp: call_endpoint_json serve_endpoint_json_cases [OF assms] call_package_zip
        serve_static_file_zip_cases [OF assms] Let_def is_file_def
        split: option.splits fs_entry.splits simp del: json_dumps.simps)
  from e z n show ?thesis by blast
qed


theorem unregistered_package_routes_witness:
  "segment ''a'' \<and> segment ''b'' \<and> segment ''1.0.0''
   \<and> get_package_status (app_registry (example_app\<lparr>app_registry := \<lparr>packages = []\<rparr>\<rparr>))
         (render_id ''a'' ''b'' ''1.0.0'') = None
   \<and> files example_sys (stored_at ''a'' ''b'' ''1.0.0'' ''hash.json'') = Some (File example_hash_json)
   \<and> json_loads example_world example_hash_json = Inr (JObj [(''hash'', JStr (sha1_hex ''archive''))])
   \<and> json_getitem (JObj [(''hash'', JStr (sha1_hex ''archive''))]) ''hash'' =
       Inr (JStr (sha1_hex ''archive''))
   \<and> call example_world (example_app\<lparr>app_registry := \<lparr>packages = []\<rparr>\<rparr>) example_sys ''GET''
         (package_path ''a'' ''b'' ''1.0.0'' ''endpoint.json'') =
       Inr (ok_response ''application/json''
              (json_dumps (JObj
                 [(''url'', JStr ''https://mirror.example.com/packages/a/b/1.0.0/package.zip''),
                  (''hash'', JStr (sha1_hex ''archive''))])))
   \<and> \<not> contains (package_path ''a'' ''b'' ''1.0.0'' ''package.zip'') ''..''
   \<and> files example_sys (stored_at ''a'' ''b'' ''1.0.0'' ''package.zip'') = Some (File ''archive'')
   \<and> call example_world (example_app\<lparr>app_registry := \<lparr>packages = []\<rparr>\<rparr>) example_sys ''GET''
         (package_path ''a'' ''b'' ''1.0.0'' ''package.zip'') =
       Inr (ok_response ''application/zip'' ''archive'')"
proof -
  let ?a = "example_app\<lparr>app_registry := \<lparr>packages = []\<rparr>\<rparr>"
  have seg: "segment ''a''" "segment ''b''" "segment ''1.0.0''"
    by (simp_all add: segment_def)
  have st: "get_package_status (app_registry ?a) (render_id ''a'' ''b'' ''1.0.0'') = None"
    by (simp add: get_package_status_def)
  have fs: "files example_sys (stored_at ''a'' ''b'' ''1.0.0'' ''hash.json'') =
      Some (File example_hash_json)"
    "files example_sys (stored_at ''a'' ''b'' ''1.0.0'' ''package.zip'') = Some (File ''archive'')"
    by (simp_all add: example_sys_def example_files_def stored_at_def)
  have ld: "json_loads example_world example_hash_json =
      Inr (JObj [(''hash'', JStr (sha1_hex ''archive''))])"
    by (simp add: example_world_def example_loads_def)
  have gi: "json_getitem (JObj [(''hash'', JStr (sha1_hex ''archive''))]) ''hash'' =
      Inr (JStr (sha1_hex ''archive''))"
    by (simp add: json_getitem_def)
  have url: "app_base_url ?a @ package_path ''a'' ''b'' ''1.0.0'' ''package.zip'' =
      ''https://mirror.example.com/packages/a/b/1.0.0/package.zip''"
    by (simp add: example_app_def package_path_def)
  note t = unregistered_package_routes [OF seg, where a = ?a and w = example_world
      and s = example_sys and raw = example_hash_json
      and hash_data = "JObj [(''hash'', JStr (sha1_hex ''archive''))]"
      and h = "JStr (sha1_hex ''archive'')" and content = "''archive''"]
  from t st fs(1) ld gi
  have p: "call example_world ?a example_sys ''GET''
         (package_path ''a'' ''b'' ''1.0.0'' ''endpoint.json'') =
       Inr (ok_response ''application/json''
              (json_dumps (JObj
                 [(''url'', JStr ''https://mirror.example.com/packages/a/b/1.0.0/package.zip''),
                  (''hash'', JStr (sha1_hex ''archive''))])))"
    unfolding url by blast
  from t st fs(2) example_no_dots(3)
  have q: "call example_world ?a example_sys ''GET''
         (package_path ''a'' ''b'' ''1.0.0'' ''package.zip'') =
       Inr (ok_response ''application/zip'' ''archive'')"
    by blast
  from seg st fs ld gi p q example_no_dots(3) show ?thesis by blast
qed

lemma dotted_version:
  "contains (package_path ''x'' ''y'' ''1..0'' ''package.zip'') ''..''"
  by code_simp

text \<open>
  The claim as first stated promises 200 when the file exists and 404 otherwise. The
  archive stored for the unregistered \<open>x/y@1..0\<close> exists, and the request for it is
  answered 400 because its path contains two dots in a row; and the \<open>hash.json\<close> stored
  for the unregistered \<open>x/y@1.0.0\<close> exists and holds \<open>[]\<close>, and the request for its
  \<open>endpoint.json\<close> raises instead of answering.
\<close>

theorem unregistered_dotted_path_counterexample:
  "get_package_status (app_registry example_app) (render_id ''x'' ''y'' ''1..0'') = None
   \<and> files (example_sys\<lparr>files := (files example_sys)
               (''packages/x/y/1..0/package.zip'' \<mapsto> File ''archive'')\<rparr>)
         ''packages/x/y/1..0/package.zip'' = Some (File ''archive'')
   \<and> call example_world example_app
         (example_sys\<lparr>files := (files example_sys)
               (''packages/x/y/1..0/package.zip'' \<mapsto> File ''archive'')\<rparr>)
         ''GET'' ''/packages/x/y/1..0/package.zip'' =
       Inr (error_response 400 ''Invalid path'')
   \<and> status_line (error_response 400 ''Invalid path'') = ''400 Bad Request''
   \<and> get_package_status (app_registry example_app) (render_id ''x'' ''y'' ''1.0.0'') = None
   \<and> json_loads example_world ''[]'' = Inr (JArr [])
   \<and> call example_world example_app
         (example_sys\<lparr>files := (files example_sys)(''packages/x/y/1.0.0/hash.json'' \<mapsto> File ''[]'')\<rparr>)
         ''GET'' ''/packages/x/y/1.0.0/endpoint.json'' =
       Inl TypeError"
proof -
  have seg: "segment ''x''" "segment ''y''" "segment ''1..0''" "segment ''1.0.0''"
    by (simp_all add: segment_def)
  have st: "get_package_status (app_registry example_app) (render_id ''x'' ''y'' ''1..0'') = None"
    "get_package_status (app_registry example_app) (render_id ''x'' ''y'' ''1.0.0'') = None"
    by (simp_all add: example_app_def example_registry_def render_id_def get_package_status_def)
  have pth: "package_path ''x'' ''y'' ''1..0'' ''package.zip'' = ''/packages/x/y/1..0/package.zip''"
    "package_path ''x'' ''y'' ''1.0.0'' ''endpoint.json'' = ''/packages/x/y/1.0.0/endpoint.json''"
    by (simp_all add: package_path_def)
  have ld: "json_loads example_world ''[]'' = Inr (JArr [])"
    by (simp add: example_world_def example_loads_def example_hash_json_def)
  have a: "call example_world example_app
         (example_sys\<lparr>files := (files example_sys)
               (''packages/x/y/1..0/package.zip'' \<mapsto> File ''archive'')\<rparr>)
         ''GET'' (package_path ''x'' ''y'' ''1..0'' ''package.zip'') =
       Inr (error_response 400 ''Invalid path'')"
    using dotted_version by (simp add: call_package_zip serve_static_file_zip_cases [OF seg(1-3)])
  have b: "call example_world example_app
         (example_sys\<lparr>files := (files example_sys)(''packages/x/y/1.0.0/hash.json'' \<mapsto> File ''[]'')\<rparr>)
         ''GET'' (package_path ''x'' ''y'' ''1.0.0'' ''endpoint.json'') =
       Inl TypeError"
    using st(2) ld
    by (simp add: call_endpoint_json serve_endpoint_json_cases [OF seg(1,2,4)]
        stored_at_def json_getitem_def)
  from a b st ld show ?thesis
    unfolding pth by (simp add: status_lines)
qed

subsection \<open>Discovery of new packages\<close>

text \<open>
  Every upstream identifier the registry does not know is inserted once, as pending, in
  front of the entries that were there; among themselves the new entries stand in the
  reverse of the upstream order.
\<close>

lemma discover_new_shape:
  "discover_new remote r ex acc = (r', ex', acc') \<Longrightarrow>
     \<exists>new. acc' = acc @ new
       \<and> packages r' = rev (map (\<lambda>i. \<lparr>pkg_id = i, pkg_status = STATUS_PENDING\<rparr>) new) @ packages r
       \<and> ex' = ex \<union> set new \<and> set new = set remote - ex \<and> distinct new"
proof (induction remote arbitrary: r ex acc)
  case Nil
  then show ?case by simp
next
  case (Cons pid remote)
  show ?case
  proof (cases "pid \<in> ex")
    case True
    with Cons.prems have "discover_new remote r ex acc = (r', ex', acc')" by simp
    from Cons.IH [OF this] True show ?thesis by auto
  next
    case False
    with Cons.prems have
      "discover_new remote (r\<lparr>packages := \<lparr>pkg_id = pid, pkg_status = STATUS_PENDING\<rparr> # packages r\<rparr>)
         (insert pid ex) (acc @ [pid]) = (r', ex', acc')"
      by simp
    from Cons.IH [OF this] obtain new where n: "acc' = (acc @ [pid]) @ new"
      "packages r' = rev (map (\<lambda>i. \<lparr>pkg_id = i, pkg_status = STATUS_PENDING\<rparr>) new)
          @ \<lparr>pkg_id = pid, pkg_status = STATUS_PENDING\<rparr> # packages r"
      "ex' = insert pid ex \<union> set new" "set new = set remote - insert pid ex" "distinct new"
      by auto
    have "acc' = acc @ (pid # new)" using n(1) by simp
    moreover have "packages r' =
        rev (map (\<lambda>i. \<lparr>pkg_id = i, pkg_status = STATUS_PENDING\<rparr>) (pid # new)) @ packages r"
      using n(2) by simp
    moreover have "ex' = ex \<union> set (pid # new)" using n(3) by auto
    moreover have "set (pid # new) = set (pid # remote) - ex" using n(4) False by auto
    moreover have "distinct (pid # new)" using n(4,5) by auto
    ultimately show ?thesis by blast
  qed
qed

text \<open>
  Claim C1. The claim asks that after the insertion of the new identifiers of a
  newest-first upstream listing the registry is newest first. On an empty registry and
  the listing \<open>x/y@2.0.0\<close>, \<open>x/y@1.0.0\<close> the loop leaves \<open>x/y@1.0.0\<close>, the older package, as
  the first entry; the registry the run saves has it first; and a client that knows one
  package and asks for \<open>/all-packages/since/1\<close> is told \<open>x/y@1.0.0\<close> rather than the newer
  \<open>x/y@2.0.0\<close>.
\<close>

theorem discover_new_puts_oldest_first:
  "discover_new [''x/y@2.0.0'', ''x/y@1.0.0''] \<lparr>packages = []\<rparr> {} [] =
     (\<lparr>packages = [\<lparr>pkg_id = ''x/y@1.0.0'', pkg_status = STATUS_PENDING\<rparr>,
                   \<lparr>pkg_id = ''x/y@2.0.0'', pkg_status = STATUS_PENDING\<rparr>]\<rparr>,
      {''x/y@1.0.0'', ''x/y@2.0.0''},
      [''x/y@2.0.0'', ''x/y@1.0.0''])
   \<and> registry_json (snd
         (sync_discovered example_world None [''x/y@2.0.0'', ''x/y@1.0.0''] \<lparr>packages = []\<rparr>
            fresh_sys)) =
       Some \<lparr>packages = [\<lparr>pkg_id = ''x/y@1.0.0'', pkg_status = ''failed''\<rparr>,
                          \<lparr>pkg_id = ''x/y@2.0.0'', pkg_status = ''failed''\<rparr>]\<rparr>
   \<and> call w \<lparr>app_base_url = base,
              app_registry = fst (discover_new [''x/y@2.0.0'', ''x/y@1.0.0''] \<lparr>packages = []\<rparr> {} [])\<rparr>
         s ''GET'' (since_path 1) =
       Inr (ok_response ''application/json'' (json_dumps (JArr [JStr ''x/y@1.0.0''])))"
proof -
  have a: "discover_new [''x/y@2.0.0'', ''x/y@1.0.0''] \<lparr>packages = []\<rparr> {} [] =
     (\<lparr>packages = [\<lparr>pkg_id = ''x/y@1.0.0'', pkg_status = STATUS_PENDING\<rparr>,
                   \<lparr>pkg_id = ''x/y@2.0.0'', pkg_status = STATUS_PENDING\<rparr>]\<rparr>,
      {''x/y@1.0.0'', ''x/y@2.0.0''},
      [''x/y@2.0.0'', ''x/y@1.0.0''])"
    by auto
  have b: "sync_discovered example_world None [''x/y@2.0.0'', ''x/y@1.0.0''] \<lparr>packages = []\<rparr>
            fresh_sys =
      (Inr (0, 2),
       \<lparr>files = [''packages/x/y/2.0.0'' \<mapsto> Dir, ''packages/x/y/1.0.0'' \<mapsto> Dir],
        registry_json = Some \<lparr>packages = [\<lparr>pkg_id = ''x/y@1.0.0'', pkg_status = ''failed''\<rparr>,
                                          \<lparr>pkg_id = ''x/y@2.0.0'', pkg_status = ''failed''\<rparr>]\<rparr>,
        clock = 6, attempted = [''x/y@2.0.0'', ''x/y@1.0.0'']\<rparr>)"
    by (simp add: sync_discovered_def failed_packages_def bind_io_def lift_io_def return_io_def
        parse_package_id_def set_package_status_def
        sync_package_def sync_package_try_def Let_def mkdir_def is_file_def
        fetch_package_endpoint_def fetch_json_def fetch_url_def example_world_def tick_def
        save_registry_def fresh_sys_def
        STATUS_PENDING_def STATUS_FAILED_def)
  have c: "call w \<lparr>app_base_url = base,
              app_registry = fst (discover_new [''x/y@2.0.0'', ''x/y@1.0.0''] \<lparr>packages = []\<rparr> {} [])\<rparr>
         s ''GET'' (since_path 1) =
       Inr (ok_response ''application/json'' (json_dumps (JArr [JStr ''x/y@1.0.0''])))"
    by (simp add: call_since serve_since_str_nat del: json_dumps.simps)
  from a b c show ?thesis by simp
qed

subsection \<open>Filtering by the package list\<close>

lemma find_status_upsert_other:
  "q \<noteq> i \<Longrightarrow> find_status (upsert_status ps i st) q = find_status ps q"
  by (induction ps) auto

lemma get_set_other:
  "q \<noteq> i \<Longrightarrow> get_package_status (set_package_status r i st) q = get_package_status r q"
  by (simp add: get_package_status_def set_package_status_def find_status_upsert_other)

lemma get_set_same:
  "get_package_status (set_package_status r i st) i = Some st"
  by (simp add: get_package_status_def set_package_status_def find_status_upsert)

lemma should_sync_well_formed:
  "well_formed_id pid \<Longrightarrow> should_sync_package pid (Some pl) = Inr (matches_policy pl pid)"
  by (auto simp: well_formed_id_def should_sync_package_def matches_policy_def
      split: sum.splits prod.splits)

lemma filter_by_package_list_result:
  assumes "\<forall>pid\<in>set todo. well_formed_id pid"
  shows "\<exists>r2. filter_by_package_list todo pl r acc = Inr (acc @ filter (matches_policy pl) todo, r2)
       \<and> (\<forall>pid. (pid \<in> set todo \<and> \<not> matches_policy pl pid) \<or> get_package_status r pid = Some STATUS_IGNORED
              \<longrightarrow> get_package_status r2 pid = Some STATUS_IGNORED)"
  using assms
proof (induction todo arbitrary: r acc)
  case Nil
  then show ?case by simp
next
  case (Cons p todo)
  then have wf: "well_formed_id p" and rest: "\<forall>pid\<in>set todo. well_formed_id pid" by auto
  show ?case
  proof (cases "matches_policy pl p")
    case True
    from Cons.IH [OF rest, of r "acc @ [p]"] True wf show ?thesis
      by (auto simp: should_sync_well_formed)
  next
    case False
    from Cons.IH [OF rest, of "set_package_status r p STATUS_IGNORED" acc]
    obtain r2 where r2:
      "filter_by_package_list todo pl (set_package_status r p STATUS_IGNORED) acc =
         Inr (acc @ filter (matches_policy pl) todo, r2)"
      "\<forall>pid. (pid \<in> set todo \<and> \<not> matches_policy pl pid)
           \<or> get_package_status (set_package_status r p STATUS_IGNORED) pid = Some STATUS_IGNORED
         \<longrightarrow> get_package_status r2 pid = Some STATUS_IGNORED"
      by blast
    have keep: "get_package_status r pid = Some STATUS_IGNORED \<Longrightarrow>
        get_package_status (set_package_status r p STATUS_IGNORED) pid = Some STATUS_IGNORED" for pid
      by (cases "pid = p") (simp_all add: get_set_same get_set_other)
    have "filter_by_package_list (p # todo) pl r acc =
        Inr (acc @ filter (matches_policy pl) (p # todo), r2)"
      using False wf r2(1) by (simp add: should_sync_well_formed)
    moreover have "\<forall>pid. (pid \<in> set (p # todo) \<and> \<not> matches_policy pl pid)
           \<or> get_package_status r pid = Some STATUS_IGNORED
         \<longrightarrow> get_package_status r2 pid = Some STATUS_IGNORED"
      using r2(2) keep by (auto simp: get_set_same)
    ultimately show ?thesis by blast
  qed
qed

subsection \<open>Syncing the work-list\<close>

lemma attempted_bind:
  assumes "\<And>s. attempted (snd (m s)) = attempted s"
    and "\<And>x s. attempted (snd (f x s)) = attempted s"
  shows "attempted (snd (bind_io m f s)) = attempted s"
proof (cases "m s")
  case (Pair res s')
  with assms(1) [of s] have a: "attempted s' = attempted s" by simp
  show ?thesis
  proof (cases res)
    case (Inl e)
    with Pair a show ?thesis by (simp add: bind_io_def)
  next
    case (Inr x)
    with Pair a assms(2) [of x s'] show ?thesis by (simp add: bind_io_def)
  qed
qed

lemma attempted_prims:
  "attempted (snd (mkdir w path s)) = attempted s"
  "attempted (snd (write_file w path contents s)) = attempted s"
  "attempted (snd (replace_file w temp_path dest_path s)) = attempted s"
  "attempted (snd (fetch_url w url s)) = attempted s"
  "attempted (snd (lift_io res s)) = attempted s"
  "attempted (snd (return_io x s)) = attempted s"
  "attempted (snd (compute_sha1 file_path s)) = attempted s"
  "attempted (snd (save_registry w r s)) = attempted s"
  by (simp_all add: mkdir_def write_file_def replace_file_def fetch_url_def lift_io_def
      return_io_def compute_sha1_def save_registry_def tick_def split: sum.splits)

lemma attempted_fetch_json: "attempted (snd (fetch_json w url s)) = attempted s"
  unfolding fetch_json_def by (intro attempted_bind attempted_prims)

lemma attempted_download:
  "attempted (snd (download_package_zip w zip_url dest_path s)) = attempted s"
proof (cases zip_url)
  case (JStr url)
  then show ?thesis
    unfolding download_package_zip_def by (simp, intro attempted_bind attempted_prims)
qed (simp_all add: download_package_zip_def attempted_prims)

lemma attempted_sync_package_try:
  "attempted (snd (sync_package_try w author name version s)) = attempted s"
  unfolding sync_package_try_def Let_def fetch_package_endpoint_def fetch_package_elm_json_def
  by (intro attempted_bind attempted_prims attempted_fetch_json attempted_download)

lemma sync_package_well_formed:
  assumes "well_formed_id pid"
  shows "\<exists>ok s'. sync_package w pid r s =
            (Inr (ok, set_package_status r pid (if ok then STATUS_SUCCESS else STATUS_FAILED)), s')
         \<and> attempted s' = attempted s @ [pid]"
proof -
  from assms obtain author name version where p: "parse_package_id pid = Inr (author, name, version)"
    by (auto simp: well_formed_id_def split: sum.splits)
  let ?s = "s\<lparr>attempted := attempted s @ [pid]\<rparr>"
  obtain res s' where t: "sync_package_try w author name version ?s = (res, s')"
    by (cases "sync_package_try w author name version ?s")
  with attempted_sync_package_try [of w author name version ?s]
  have a: "attempted s' = attempted s @ [pid]" by simp
  have "sync_package w pid r s =
      (Inr (res = Inr True,
            set_package_status r pid (if res = Inr True then STATUS_SUCCESS else STATUS_FAILED)), s')"
    using p t by (cases res) (auto simp: sync_package_def Let_def)
  with a show ?thesis by blast
qed

lemma save_registry_outcome:
  "\<exists>s'. (save_registry w r s = (Inl OSError, s')
          \<or> save_registry w r s = (Inr (), s') \<and> registry_json s' = Some r)
        \<and> attempted s' = attempted s"
  by (simp add: save_registry_def tick_def)

lemma save_registry_writable:
  "registry_writable w \<Longrightarrow> \<exists>s'. save_registry w r s = (Inr (), s')"
  by (simp add: save_registry_def registry_writable_def)

lemma sync_loop_outcome:
  assumes "\<forall>pid\<in>set todo. well_formed_id pid"
  shows "\<exists>res s'. sync_loop w todo i r sc fc s = (res, s') \<and>
     (case res of
        Inl e \<Rightarrow> e = OSError \<and> (\<exists>ys. attempted s' = attempted s @ ys \<and> prefix ys todo)
      | Inr (r3, sc', fc') \<Rightarrow>
          attempted s' = attempted s @ todo
          \<and> (\<forall>q. q \<notin> set todo \<longrightarrow> get_package_status r3 q = get_package_status r q)
          \<and> (\<forall>q\<in>set todo. get_package_status r3 q = Some STATUS_SUCCESS
                             \<or> get_package_status r3 q = Some STATUS_FAILED)
          \<and> sc' + fc' = sc + fc + length todo)"
  using assms
proof (induction todo arbitrary: i r sc fc s)
  case Nil
  then show ?case by simp
next
  case (Cons p todo)
  then have wf: "well_formed_id p" and rest: "\<forall>pid\<in>set todo. well_formed_id pid" by auto
  from sync_package_well_formed [OF wf, of w r s]
  obtain ok s1 where sp:
    "sync_package w p r s =
       (Inr (ok, set_package_status r p (if ok then STATUS_SUCCESS else STATUS_FAILED)), s1)"
    "attempted s1 = attempted s @ [p]"
    by blast
  let ?r1 = "set_package_status r p (if ok then STATUS_SUCCESS else STATUS_FAILED)"
  let ?sc = "if ok then Suc sc else sc" and ?fc = "if ok then fc else Suc fc"
  obtain cres s2 where cp:
    "(if i mod 10 = 0 then save_registry w ?r1 s1 else (Inr (), s1)) = (cres, s2)"
    by (cases "if i mod 10 = 0 then save_registry w ?r1 s1 else (Inr (), s1)")
  have cp_att: "attempted s2 = attempted s1"
    and cp_res: "cres = Inl OSError \<or> cres = Inr ()"
    using cp save_registry_outcome [of w ?r1 s1] by (auto split: if_splits)
  show ?case
  proof (cases cres)
    case (Inl e)
    with cp_res have e: "e = OSError" by simp
    have "sync_loop w (p # todo) i r sc fc s = (Inl OSError, s2)"
      using sp(1) cp Inl e by (simp del: save_registry_def)
    moreover have "attempted s2 = attempted s @ [p] \<and> prefix [p] (p # todo)"
      using cp_att sp(2) by simp
    ultimately show ?thesis by (auto simp del: sync_loop.simps)
  next
    case (Inr u)
    from Cons.IH [OF rest, of "Suc i" ?r1 ?sc ?fc s2]
    obtain res s' where ih: "sync_loop w todo (Suc i) ?r1 ?sc ?fc s2 = (res, s')"
      "case res of
        Inl e \<Rightarrow> e = OSError \<and> (\<exists>ys. attempted s' = attempted s2 @ ys \<and> prefix ys todo)
      | Inr (r3, sc', fc') \<Rightarrow>
          attempted s' = attempted s2 @ todo
          \<and> (\<forall>q. q \<notin> set todo \<longrightarrow> get_package_status r3 q = get_package_status ?r1 q)
          \<and> (\<forall>q\<in>set todo. get_package_status r3 q = Some STATUS_SUCCESS
                             \<or> get_package_status r3 q = Some STATUS_FAILED)
          \<and> sc' + fc' = ?sc + ?fc + length todo"
      by blast
    have eq: "sync_loop w (p # todo) i r sc fc s = (res, s')"
      using sp(1) cp Inr ih(1) by simp
    have att: "attempted s2 = attempted s @ [p]" using cp_att sp(2) by simp
    show ?thesis
    proof (cases res)
      case (Inl e)
      with ih(2) obtain ys where "e = OSError" "attempted s' = attempted s2 @ ys" "prefix ys todo"
        by auto
      then have "e = OSError \<and> attempted s' = attempted s @ (p # ys) \<and> prefix (p # ys) (p # todo)"
        using att by simp
      with eq Inl show ?thesis by (auto simp del: sync_loop.simps)
    next
      case (Inr t)
      obtain r3 sc' fc' where t: "t = (r3, sc', fc')" by (cases t)
      from ih(2) Inr t have h:
        "attempted s' = attempted s2 @ todo"
        "\<forall>q. q \<notin> set todo \<longrightarrow> get_package_status r3 q = get_package_status ?r1 q"
        "\<forall>q\<in>set todo. get_package_status r3 q = Some STATUS_SUCCESS
                             \<or> get_package_status r3 q = Some STATUS_FAILED"
        "sc' + fc' = ?sc + ?fc + length todo"
        by auto
      have a: "attempted s' = attempted s @ p # todo" using h(1) att by simp
      have b: "\<forall>q. q \<notin> set (p # todo) \<longrightarrow> get_package_status r3 q = get_package_status r q"
        using h(2) by (auto simp: get_set_other)
      have c: "\<forall>q\<in>set (p # todo). get_package_status r3 q = Some STATUS_SUCCESS
                             \<or> get_package_status r3 q = Some STATUS_FAILED"
      proof
        fix q assume "q \<in> set (p # todo)"
        show "get_package_status r3 q = Some STATUS_SUCCESS
            \<or> get_package_status r3 q = Some STATUS_FAILED"
        proof (cases "q \<in> set todo")
          case True
          with h(3) show ?thesis by blast
        next
          case False
          with \<open>q \<in> set (p # todo)\<close> have "q = p" by simp
          with False h(2) have "get_package_status r3 q = get_package_status ?r1 p" by simp
          then show ?thesis by (simp add: get_set_same)
        qed
      qed
      have d: "sc' + fc' = sc + fc + length (p # todo)" using h(4) by (cases ok) simp_all
      from eq Inr t a b c d show ?thesis by (auto simp del: sync_loop.simps)
    qed
  qed
qed

lemma sync_loop_writable:
  assumes "registry_writable w" "\<forall>pid\<in>set todo. well_formed_id pid"
  shows "\<exists>r3 sc' fc' s'. sync_loop w todo i r sc fc s = (Inr (r3, sc', fc'), s')"
  using assms(2)
proof (induction todo arbitrary: i r sc fc s)
  case Nil
  then show ?case by simp
next
  case (Cons p todo)
  then have wf: "well_formed_id p" and rest: "\<forall>pid\<in>set todo. well_formed_id pid" by auto
  from sync_package_well_formed [OF wf, of w r s]
  obtain ok s1 where sp:
    "sync_package w p r s =
       (Inr (ok, set_package_status r p (if ok then STATUS_SUCCESS else STATUS_FAILED)), s1)"
    by blast
  let ?r1 = "set_package_status r p (if ok then STATUS_SUCCESS else STATUS_FAILED)"
  obtain s2 where cp:
    "(if i mod 10 = 0 then save_registry w ?r1 s1 else (Inr (), s1)) = (Inr (), s2)"
    using save_registry_writable [OF assms(1), of ?r1 s1] by (cases "i mod 10 = 0") auto
  from Cons.IH [OF rest] obtain r3 sc' fc' s' where
    "sync_loop w todo (Suc i) ?r1 (if ok then Suc sc else sc) (if ok then fc else Suc fc) s2 =
       (Inr (r3, sc', fc'), s')"
    by blast
  with sp cp show ?case by simp
qed

lemma sync_package_caught:
  assumes "parse_package_id pid = Inr (author, name, version)"
    and "sync_package_try w author name version (s\<lparr>attempted := attempted s @ [pid]\<rparr>) = (res, s')"
    and "res \<noteq> Inr True"
  shows "sync_package w pid r s = (Inr (False, set_package_status r pid STATUS_FAILED), s')"
  using assms by (cases res) (auto simp: sync_package_def Let_def)

lemma sync_loop_continues:
  assumes "parse_package_id pid = Inr (author, name, version)"
    and "sync_package_try w author name version (s\<lparr>attempted := attempted s @ [pid]\<rparr>) = (res, s1)"
    and "res \<noteq> Inr True"
  shows "sync_loop w (pid # rest) i r sc fc s =
     (case (if i mod 10 = 0 then save_registry w (set_package_status r pid STATUS_FAILED) s1
            else (Inr (), s1)) of
        (Inl e, s2) \<Rightarrow> (Inl e, s2)
      | (Inr u, s2) \<Rightarrow>
          sync_loop w rest (Suc i) (set_package_status r pid STATUS_FAILED) sc (Suc fc) s2)"
  using sync_package_caught [OF assms, of r] by simp

text \<open>
  Claim C8. Whatever the upstream answers and whichever writes to the package files
  fail: for a package whose identifier parsed, every exception raised inside the \<open>try\<close>
  block of \<open>sync_package\<close> and every digest mismatch makes \<open>sync_package\<close> return \<open>False\<close>
  with the package marked failed in the registry, no exception leaves \<open>sync_package\<close>, and
  the loop goes on with the rest of the work-list (after saving the registry when the
  package was a tenth one). For a work-list of well-formed identifiers and a registry
  file that can be written, the loop ends normally, having attempted every package of
  the work-list in order, each counted as a success or a failure and each left with the
  status success or failed.
\<close>

theorem sync_failures_do_not_abort:
  "(\<forall>author name version res s1 rest j sc0 fc0.
       parse_package_id pid = Inr (author, name, version)
       \<and> sync_package_try w author name version (s0\<lparr>attempted := attempted s0 @ [pid]\<rparr>) = (res, s1)
       \<and> res \<noteq> Inr True \<longrightarrow>
       sync_package w pid r0 s0 = (Inr (False, set_package_status r0 pid STATUS_FAILED), s1)
       \<and> get_package_status (set_package_status r0 pid STATUS_FAILED) pid = Some STATUS_FAILED
       \<and> sync_loop w (pid # rest) j r0 sc0 fc0 s0 =
           (case (if j mod 10 = 0
                  then save_registry w (set_package_status r0 pid STATUS_FAILED) s1
                  else (Inr (), s1)) of
              (Inl e, s2) \<Rightarrow> (Inl e, s2)
            | (Inr u, s2) \<Rightarrow>
                sync_loop w rest (Suc j) (set_package_status r0 pid STATUS_FAILED) sc0 (Suc fc0) s2))
   \<and> ((\<forall>p\<in>set todo. well_formed_id p) \<and> registry_writable w \<longrightarrow>
        (\<exists>r3 sc' fc' s'. sync_loop w todo i r sc fc s = (Inr (r3, sc', fc'), s')
           \<and> attempted s' = attempted s @ todo
           \<and> sc' + fc' = sc + fc + length todo
           \<and> (\<forall>q\<in>set todo. get_package_status r3 q = Some STATUS_SUCCESS
                              \<or> get_package_status r3 q = Some STATUS_FAILED)))"
proof -
  have one: "sync_package w pid r0 s0 = (Inr (False, set_package_status r0 pid STATUS_FAILED), s1)
       \<and> get_package_status (set_package_status r0 pid STATUS_FAILED) pid = Some STATUS_FAILED
       \<and> sync_loop w (pid # rest) j r0 sc0 fc0 s0 =
           (case (if j mod 10 = 0
                  then save_registry w (set_package_status r0 pid STATUS_FAILED) s1
                  else (Inr (), s1)) of
              (Inl e, s2) \<Rightarrow> (Inl e, s2)
            | (Inr u, s2) \<Rightarrow>
                sync_loop w rest (Suc j) (set_package_status r0 pid STATUS_FAILED) sc0 (Suc fc0) s2)"
    if "parse_package_id pid = Inr (author, name, version)"
      and "sync_package_try w author name version (s0\<lparr>attempted := attempted s0 @ [pid]\<rparr>) = (res, s1)"
      and "res \<noteq> Inr True"
    for author name version res s1 rest j sc0 fc0
    using sync_package_caught [OF that, of r0] sync_loop_continues [OF that, of rest j r0 sc0 fc0]
      get_set_same [of r0 pid STATUS_FAILED]
    by simp
  have all: "\<exists>r3 sc' fc' s'. sync_loop w todo i r sc fc s = (Inr (r3, sc', fc'), s')
        \<and> attempted s' = attempted s @ todo
        \<and> sc' + fc' = sc + fc + length todo
        \<and> (\<forall>q\<in>set todo. get_package_status r3 q = Some STATUS_SUCCESS
                           \<or> get_package_status r3 q = Some STATUS_FAILED)"
    if wf: "\<forall>p\<in>set todo. well_formed_id p" and rw: "registry_writable w"
  proof -
    from sync_loop_writable [OF rw wf, of i r sc fc s]
    obtain r3 sc' fc' s' where run: "sync_loop w todo i r sc fc s = (Inr (r3, sc', fc'), s')"
      by blast
    with sync_loop_outcome [OF wf, of w i r sc fc s]
    have "attempted s' = attempted s @ todo \<and> sc' + fc' = sc + fc + length todo
        \<and> (\<forall>q\<in>set todo. get_package_status r3 q = Some STATUS_SUCCESS
                             \<or> get_package_status r3 q = Some STATUS_FAILED)"
      by (auto simp del: sync_loop.simps)
    with run show ?thesis by blast
  qed
  from one all show ?thesis by blast
qed

lemma example_ids_well_formed:
  "well_formed_id ''g/h@4.0.0''" "well_formed_id ''c/d@2.0.0''" "well_formed_id ''a/b@1.0.0''"
  "well_formed_id ''e/f@3.0.0''"
  by (simp_all add: well_formed_id_def parse_package_id_def)

lemma example_world_writable: "registry_writable example_world"
  by (simp add: registry_writable_def example_world_def)

lemma example_sync_unreachable:
  "pid = author @ ''/'' @ name @ ''@'' @ version \<Longrightarrow>
   parse_package_id pid = Inr (author, name, version) \<Longrightarrow>
   \<not> is_file s (''packages/'' @ author @ ''/'' @ name @ ''/'' @ version) \<Longrightarrow>
   fst (sync_package example_world pid r s) = Inr (False, set_package_status r pid STATUS_FAILED)"
  by (simp add: sync_package_def sync_package_try_def Let_def bind_io_def mkdir_def
      fetch_package_endpoint_def fetch_json_def fetch_url_def example_world_def tick_def)


lemma example_try_unreachable:
  "sync_package_try example_world ''g'' ''h'' ''4.0.0''
     (example_sys\<lparr>attempted := attempted example_sys @ [''g/h@4.0.0'']\<rparr>) =
   (Inl URLError,
    example_sys\<lparr>attempted := [''g/h@4.0.0''],
                files := (files example_sys)(''packages/g/h/4.0.0'' \<mapsto> Dir), clock := 2\<rparr>)"
  by (simp add: sync_package_try_def Let_def bind_io_def mkdir_def is_file_def
      fetch_package_endpoint_def fetch_json_def fetch_url_def example_world_def tick_def
      example_sys_def example_files_def)

lemma example_parse: "parse_package_id ''g/h@4.0.0'' = Inr (''g'', ''h'', ''4.0.0'')"
  by (simp add: parse_package_id_def)

theorem sync_failures_do_not_abort_witness:
  "parse_package_id ''g/h@4.0.0'' = Inr (''g'', ''h'', ''4.0.0'')
   \<and> sync_package_try example_world ''g'' ''h'' ''4.0.0''
         (example_sys\<lparr>attempted := attempted example_sys @ [''g/h@4.0.0'']\<rparr>) =
       (Inl URLError,
        example_sys\<lparr>attempted := [''g/h@4.0.0''],
                    files := (files example_sys)(''packages/g/h/4.0.0'' \<mapsto> Dir), clock := 2\<rparr>)
   \<and> fst (sync_package example_world ''g/h@4.0.0'' example_registry example_sys) =
       Inr (False, set_package_status example_registry ''g/h@4.0.0'' STATUS_FAILED)
   \<and> well_formed_id ''g/h@4.0.0'' \<and> well_formed_id ''c/d@2.0.0'' \<and> registry_writable example_world
   \<and> fst (sync_loop example_world [''g/h@4.0.0'', ''c/d@2.0.0''] 1 example_registry 0 0 example_sys) =
       Inr (\<lparr>packages = [\<lparr>pkg_id = ''g/h@4.0.0'', pkg_status = STATUS_FAILED\<rparr>,
                         \<lparr>pkg_id = ''e/f@3.0.0'', pkg_status = ''ignored''\<rparr>,
                         \<lparr>pkg_id = ''c/d@2.0.0'', pkg_status = STATUS_FAILED\<rparr>,
                         \<lparr>pkg_id = ''a/b@1.0.0'', pkg_status = ''success''\<rparr>]\<rparr>, 0, 2)
   \<and> attempted (snd (sync_loop example_world [''g/h@4.0.0'', ''c/d@2.0.0''] 1 example_registry 0 0
                       example_sys)) = [''g/h@4.0.0'', ''c/d@2.0.0'']"
proof -
  let ?todo = "[''g/h@4.0.0'', ''c/d@2.0.0'']"
  note t = sync_failures_do_not_abort [where pid = "''g/h@4.0.0''" and w = example_world
      and ?s0.0 = example_sys and ?r0.0 = example_registry and todo = ?todo and i = 1
      and r = example_registry and sc = 0 and fc = 0 and s = example_sys]
  have wf: "\<forall>pid\<in>set ?todo. well_formed_id pid"
    by (simp add: example_ids_well_formed)
  let ?s1 = "example_sys\<lparr>attempted := [''g/h@4.0.0''],
                files := (files example_sys)(''packages/g/h/4.0.0'' \<mapsto> Dir), clock := 2\<rparr>"
  from t have "parse_package_id ''g/h@4.0.0'' = Inr (''g'', ''h'', ''4.0.0'')
       \<and> sync_package_try example_world ''g'' ''h'' ''4.0.0''
           (example_sys\<lparr>attempted := attempted example_sys @ [''g/h@4.0.0'']\<rparr>) = (Inl URLError, ?s1)
       \<and> Inl URLError \<noteq> (Inr True :: exn + bool) \<longrightarrow>
       sync_package example_world ''g/h@4.0.0'' example_registry example_sys =
         (Inr (False, set_package_status example_registry ''g/h@4.0.0'' STATUS_FAILED), ?s1)"
    by blast
  with example_parse example_try_unreachable
  have one: "fst (sync_package example_world ''g/h@4.0.0'' example_registry example_sys) =
       Inr (False, set_package_status example_registry ''g/h@4.0.0'' STATUS_FAILED)"
    by simp
  from t wf example_world_writable
  obtain r3 sc' fc' s' where
    run: "sync_loop example_world ?todo 1 example_registry 0 0 example_sys = (Inr (r3, sc', fc'), s')"
    and att: "attempted s' = attempted example_sys @ ?todo"
    by blast
  have ev: "fst (sync_loop example_world ?todo 1 example_registry 0 0 example_sys) =
       Inr (\<lparr>packages = [\<lparr>pkg_id = ''g/h@4.0.0'', pkg_status = STATUS_FAILED\<rparr>,
                         \<lparr>pkg_id = ''e/f@3.0.0'', pkg_status = ''ignored''\<rparr>,
                         \<lparr>pkg_id = ''c/d@2.0.0'', pkg_status = STATUS_FAILED\<rparr>,
                         \<lparr>pkg_id = ''a/b@1.0.0'', pkg_status = ''success''\<rparr>]\<rparr>, 0, 2)"
    by (simp add: sync_package_def sync_package_try_def Let_def bind_io_def mkdir_def is_file_def
        fetch_package_endpoint_def fetch_json_def fetch_url_def example_world_def tick_def
        parse_package_id_def example_sys_def example_files_def example_registry_def
        set_package_status_def)
  from run att have "attempted (snd (sync_loop example_world ?todo 1 example_registry 0 0 example_sys))
      = ?todo"
    by (simp add: example_sys_def)
  with ev one example_parse example_try_unreachable example_ids_well_formed(1,2)
    example_world_writable
  show ?thesis by blast
qed

subsection \<open>The sync policy\<close>

text \<open>
  Claim C5, as the code has it. When a sync policy is configured and every identifier of
  the work-list is well formed, every work-list entry that matches neither an
  \<open>author/name\<close> entry nor an \<open>author/name@version\<close> entry of the policy is left out of
  the list that is synced, is never passed to \<open>sync_package\<close> during the run, and is
  marked ignored in the registry the run saves; the entries that match are synced in
  work-list order. The run can then only be aborted by a failure to write the registry
  file, after which the packages attempted so far are still a prefix of the matching
  entries. (An identifier that is not well formed and is not itself an entry of the
  policy makes \<open>should_sync_package\<close> raise, which aborts the run.)
\<close>

theorem policy_filters_work_list:
  assumes "\<forall>pid\<in>set (work_list remote r0). well_formed_id pid"
  shows
    "\<exists>res s' ys. sync_discovered w (Some pl) remote r0 s = (res, s')
       \<and> attempted s' = attempted s @ ys
       \<and> prefix ys (filter (matches_policy pl) (work_list remote r0))
       \<and> (\<forall>pid\<in>set (work_list remote r0). \<not> matches_policy pl pid \<longrightarrow> pid \<notin> set ys)
       \<and> (case res of
             Inl e \<Rightarrow> e = OSError
           | Inr counts \<Rightarrow>
               ys = filter (matches_policy pl) (work_list remote r0)
               \<and> (\<exists>r. registry_json s' = Some r
                      \<and> (\<forall>pid\<in>set (work_list remote r0).
                            \<not> matches_policy pl pid \<longrightarrow>
                            get_package_status r pid = Some STATUS_IGNORED)))
       \<and> (registry_writable w \<longrightarrow> (\<exists>counts. res = Inr counts))
       \<and> (\<forall>pid\<in>set (work_list remote r0).
             should_sync_package pid (Some pl) = Inr (matches_policy pl pid))"
proof -
  obtain r1 ex1 new where d: "discover_new remote r0 (set (map pkg_id (packages r0))) [] = (r1, ex1, new)"
    by (cases "discover_new remote r0 (set (map pkg_id (packages r0))) []")
  let ?wl = "new @ failed_packages r1"
  let ?f = "filter (matches_policy pl) ?wl"
  have wl: "work_list remote r0 = ?wl" using d by (simp add: work_list_def)
  have wf: "\<forall>pid\<in>set ?wl. well_formed_id pid" using assms unfolding wl .
  from filter_by_package_list_result [OF wf, of pl r1 "[]"]
  obtain r2 where f: "filter_by_package_list ?wl pl r1 [] = Inr (?f, r2)"
    and ign: "\<forall>pid. pid \<in> set ?wl \<and> \<not> matches_policy pl pid \<longrightarrow>
                get_package_status r2 pid = Some STATUS_IGNORED"
    by auto
  have wff: "\<forall>pid\<in>set ?f. well_formed_id pid" using wf by auto
  have notin: "\<forall>pid\<in>set ?wl. \<not> matches_policy pl pid \<longrightarrow> pid \<notin> set ?f" by auto
  from sync_loop_outcome [OF wff, of w 1 r2 0 0 s]
  obtain lres s1 where l: "sync_loop w ?f 1 r2 0 0 s = (lres, s1)"
    and lo: "case lres of
        Inl e \<Rightarrow> e = OSError \<and> (\<exists>ys. attempted s1 = attempted s @ ys \<and> prefix ys ?f)
      | Inr (r3, sc', fc') \<Rightarrow>
          attempted s1 = attempted s @ ?f
          \<and> (\<forall>q. q \<notin> set ?f \<longrightarrow> get_package_status r3 q = get_package_status r2 q)
          \<and> (\<forall>q\<in>set ?f. get_package_status r3 q = Some STATUS_SUCCESS
                             \<or> get_package_status r3 q = Some STATUS_FAILED)
          \<and> sc' + fc' = 0 + 0 + length ?f"
    by blast
  have unfold: "sync_discovered w (Some pl) remote r0 s =
      (case lres of
         Inl e \<Rightarrow> (Inl e, s1)
       | Inr (r3, sc', fc') \<Rightarrow>
           (case save_registry w r3 s1 of
              (Inl e, s2) \<Rightarrow> (Inl e, s2)
            | (Inr u, s2) \<Rightarrow> (Inr (sc', fc'), s2)))"
    using d f l
    by (simp add: sync_discovered_def bind_io_def lift_io_def return_io_def
        split: sum.splits prod.splits)
  have ss: "\<forall>pid\<in>set ?wl. should_sync_package pid (Some pl) = Inr (matches_policy pl pid)"
    using wf by (simp add: should_sync_well_formed)
  show ?thesis
  proof (cases lres)
    case (Inl e)
    with lo obtain ys where "e = OSError" "attempted s1 = attempted s @ ys" "prefix ys ?f"
      by auto
    moreover from this notin have "\<forall>pid\<in>set ?wl. \<not> matches_policy pl pid \<longrightarrow> pid \<notin> set ys"
      by (meson set_mono_prefix subsetD)
    moreover have "\<not> registry_writable w"
      using sync_loop_writable [OF _ wff, of w 1 r2 0 0 s] l Inl by auto
    ultimately show ?thesis
      unfolding wl unfold using Inl ss by auto
  next
    case (Inr t)
    obtain r3 sc' fc' where t: "t = (r3, sc', fc')" by (cases t)
    from lo Inr t have a1: "attempted s1 = attempted s @ ?f"
      and keep: "\<forall>q. q \<notin> set ?f \<longrightarrow> get_package_status r3 q = get_package_status r2 q"
      by auto
    have ign3: "\<forall>pid\<in>set ?wl. \<not> matches_policy pl pid \<longrightarrow>
        get_package_status r3 pid = Some STATUS_IGNORED"
      using keep ign by auto
    from save_registry_outcome [of w r3 s1] obtain s2 where
      sv: "save_registry w r3 s1 = (Inl OSError, s2)
          \<or> save_registry w r3 s1 = (Inr (), s2) \<and> registry_json s2 = Some r3"
      and a2: "attempted s2 = attempted s1"
      by blast
    from sv show ?thesis
    proof
      assume e: "save_registry w r3 s1 = (Inl OSError, s2)"
      then have "\<not> registry_writable w"
        using save_registry_writable [of w r3 s1] by auto
      with e a1 a2 notin ss show ?thesis
        unfolding wl unfold using Inr t by auto
    next
      assume "save_registry w r3 s1 = (Inr (), s2) \<and> registry_json s2 = Some r3"
      with a1 a2 notin ign3 ss show ?thesis
        unfolding wl unfold using Inr t by auto
    qed
  qed
qed


lemma example_work_list:
  "work_list [''c/d@2.0.0'', ''a/b@1.0.0''] \<lparr>packages = []\<rparr> = [''c/d@2.0.0'', ''a/b@1.0.0'']"
  by (simp add: work_list_def failed_packages_def STATUS_PENDING_def STATUS_FAILED_def)

lemma example_policy_run:
  "sync_discovered example_world (Some {''a/b''}) [''c/d@2.0.0'', ''a/b@1.0.0''] \<lparr>packages = []\<rparr>
     fresh_sys =
   (Inr (0, 1),
    \<lparr>files = [''packages/a/b/1.0.0'' \<mapsto> Dir],
     registry_json = Some \<lparr>packages = [\<lparr>pkg_id = ''a/b@1.0.0'', pkg_status = ''failed''\<rparr>,
                                       \<lparr>pkg_id = ''c/d@2.0.0'', pkg_status = ''ignored''\<rparr>]\<rparr>,
     clock = 4, attempted = [''a/b@1.0.0'']\<rparr>)"
  by (simp add: sync_discovered_def failed_packages_def bind_io_def lift_io_def return_io_def
      should_sync_package_def parse_package_id_def set_package_status_def
      sync_package_def sync_package_try_def Let_def mkdir_def is_file_def
      fetch_package_endpoint_def fetch_json_def fetch_url_def example_world_def tick_def
      save_registry_def fresh_sys_def
      STATUS_PENDING_def STATUS_FAILED_def STATUS_IGNORED_def)

theorem policy_filters_work_list_witness:
  "work_list [''c/d@2.0.0'', ''a/b@1.0.0''] \<lparr>packages = []\<rparr> = [''c/d@2.0.0'', ''a/b@1.0.0'']
   \<and> well_formed_id ''c/d@2.0.0'' \<and> well_formed_id ''a/b@1.0.0''
   \<and> \<not> matches_policy {''a/b''} ''c/d@2.0.0'' \<and> matches_policy {''a/b''} ''a/b@1.0.0''
   \<and> registry_writable example_world
   \<and> (\<exists>counts s' r.
         sync_discovered example_world (Some {''a/b''}) [''c/d@2.0.0'', ''a/b@1.0.0'']
           \<lparr>packages = []\<rparr> fresh_sys = (Inr counts, s')
         \<and> attempted s' = [''a/b@1.0.0'']
         \<and> registry_json s' = Some r
         \<and> get_package_status r ''c/d@2.0.0'' = Some STATUS_IGNORED)"
proof -
  let ?remote = "[''c/d@2.0.0'', ''a/b@1.0.0'']"
  have wf: "\<forall>pid\<in>set (work_list ?remote \<lparr>packages = []\<rparr>). well_formed_id pid"
    by (simp add: example_work_list example_ids_well_formed)
  have m: "\<not> matches_policy {''a/b''} ''c/d@2.0.0''" "matches_policy {''a/b''} ''a/b@1.0.0''"
    by (simp_all add: matches_policy_def parse_package_id_def)
  from policy_filters_work_list [OF wf, of example_world "{''a/b''}" fresh_sys]
  obtain res s' ys where
    run: "sync_discovered example_world (Some {''a/b''}) ?remote \<lparr>packages = []\<rparr> fresh_sys = (res, s')"
    and att: "attempted s' = attempted fresh_sys @ ys"
    and out: "case res of
             Inl e \<Rightarrow> e = OSError
           | Inr counts \<Rightarrow>
               ys = filter (matches_policy {''a/b''}) (work_list ?remote \<lparr>packages = []\<rparr>)
               \<and> (\<exists>r. registry_json s' = Some r
                      \<and> (\<forall>pid\<in>set (work_list ?remote \<lparr>packages = []\<rparr>).
                            \<not> matches_policy {''a/b''} pid \<longrightarrow>
                            get_package_status r pid = Some STATUS_IGNORED))"
    and tot: "registry_writable example_world \<longrightarrow> (\<exists>counts. res = Inr counts)"
    by blast
  from tot example_world_writable obtain counts where res: "res = Inr counts" by blast
  from out res m have ys: "ys = [''a/b@1.0.0'']"
    and "\<exists>r. registry_json s' = Some r
           \<and> get_package_status r ''c/d@2.0.0'' = Some STATUS_IGNORED"
    by (auto simp: example_work_list)
  then obtain r where r: "registry_json s' = Some r"
      "get_package_status r ''c/d@2.0.0'' = Some STATUS_IGNORED"
    by blast
  from att ys have "attempted s' = [''a/b@1.0.0'']" by (simp add: fresh_sys_def)
  with run res r example_work_list example_ids_well_formed(2,3) m example_world_writable
  show ?thesis by blast
qed

text \<open>
  The claim as first stated speaks of every work-list entry. With the policy \<open>a/b\<close> and
  the upstream listing \<open>c/d@2.0.0\<close>, \<open>bad\<close>, neither entry matches the policy; the filter
  raises on \<open>bad\<close>, the run is aborted before anything is saved, and no entry is marked
  ignored in the registry on disk.
\<close>

theorem policy_malformed_identifier_counterexample:
  "\<not> matches_policy {''a/b''} ''c/d@2.0.0''
   \<and> \<not> matches_policy {''a/b''} ''bad''
   \<and> work_list [''c/d@2.0.0'', ''bad''] \<lparr>packages = []\<rparr> = [''c/d@2.0.0'', ''bad'']
   \<and> sync_discovered example_world (Some {''a/b''}) [''c/d@2.0.0'', ''bad''] \<lparr>packages = []\<rparr>
         fresh_sys =
       (Inl (ValueError ''Invalid package ID: bad''), fresh_sys)
   \<and> registry_json fresh_sys = None"
  by (simp add: matches_policy_def parse_package_id_def work_list_def failed_packages_def
      sync_discovered_def bind_io_def lift_io_def should_sync_package_def fresh_sys_def
      STATUS_PENDING_def STATUS_FAILED_def)

subsection \<open>The verifier\<close>

lemma chunked_digest: "0 < n \<Longrightarrow> compute_sha1_chunked n contents = sha1_hex contents"
  using read_chunks_update [of n contents sha1_new "[]"]
  by (simp add: compute_sha1_chunked_def sha1_hex_def sha1_update_nil)

lemma verify_package_checkable:
  assumes "checkable w s pid"
  shows "\<exists>res. verify_package w s pid = Inr res \<and> (res = None \<longleftrightarrow> intact w s pid)"
proof -
  from assms obtain author name version where p: "parse_package_id pid = Inr (author, name, version)"
    by (auto simp: checkable_def split: sum.splits)
  have d: "compute_sha1_chunked 8192 z = sha1_hex z" for z
    by (simp add: chunked_digest)
  show ?thesis
    using assms p
    by (auto simp: checkable_def verify_package_def intact_def Let_def stored_at_def path_exists_def
        read_file_def compute_sha1_def json_getitem_def d
        split: option.splits fs_entry.splits sum.splits exn.splits json.splits)
qed


lemma verify_loop_collects:
  assumes "\<forall>p\<in>set ps. checkable w s (pkg_id p)"
  shows "\<exists>errs. verify_loop w s ps acc = Inr (acc @ errs)
       \<and> length errs = length (filter (\<lambda>p. \<not> intact w s (pkg_id p)) ps)"
  using assms
proof (induction ps arbitrary: acc)
  case Nil
  then show ?case by simp
next
  case (Cons p ps)
  then have c: "checkable w s (pkg_id p)" and rest: "\<forall>q\<in>set ps. checkable w s (pkg_id q)"
    by auto
  from verify_package_checkable [OF c] obtain res where
    v: "verify_package w s (pkg_id p) = Inr res" "res = None \<longleftrightarrow> intact w s (pkg_id p)"
    by blast
  show ?case
  proof (cases res)
    case None
    from Cons.IH [OF rest, of acc] obtain errs where
      "verify_loop w s ps acc = Inr (acc @ errs)"
      "length errs = length (filter (\<lambda>p. \<not> intact w s (pkg_id p)) ps)"
      by blast
    with v None show ?thesis by simp
  next
    case (Some err)
    from Cons.IH [OF rest, of "acc @ [err]"] obtain errs where
      "verify_loop w s ps (acc @ [err]) = Inr ((acc @ [err]) @ errs)"
      "length errs = length (filter (\<lambda>p. \<not> intact w s (pkg_id p)) ps)"
      by blast
    with v Some have "verify_loop w s (p # ps) acc = Inr (acc @ (err # errs))
        \<and> length (err # errs) = length (filter (\<lambda>p. \<not> intact w s (pkg_id p)) (p # ps))"
      by simp
    then show ?thesis by blast
  qed
qed

text \<open>
  Claim C9, as the code has it. When every registry entry with status success can be
  checked without an exception (its identifier is well formed, neither its
  \<open>package.zip\<close> nor its \<open>hash.json\<close> is a directory, and decoding its \<open>hash.json\<close> gives an
  object or one of the two exceptions that are caught), \<open>run_verify\<close> sweeps all of them:
  it collects exactly one error for each such entry that fails one of the four checks
  (archive exists, digest record exists and parses, recomputed digest equals the
  recorded one, manifest exists), none for the others, and returns \<open>True\<close> exactly when
  no error was collected. An empty registry returns \<open>True\<close>.
\<close>

theorem run_verify_collects_failures:
  assumes "\<forall>p\<in>set (filter (\<lambda>p. pkg_status p = STATUS_SUCCESS) (packages (load_registry s))).
             checkable w s (pkg_id p)"
  shows
    "(\<exists>errors.
        verify_loop w s (filter (\<lambda>p. pkg_status p = STATUS_SUCCESS) (packages (load_registry s))) []
          = Inr errors
        \<and> length errors =
            length (filter (\<lambda>p. \<not> intact w s (pkg_id p))
                      (filter (\<lambda>p. pkg_status p = STATUS_SUCCESS) (packages (load_registry s))))
        \<and> run_verify w s = Inr (errors = []))
     \<and> run_verify w s =
         Inr (\<forall>p\<in>set (filter (\<lambda>p. pkg_status p = STATUS_SUCCESS) (packages (load_registry s))).
                intact w s (pkg_id p))
     \<and> (packages (load_registry s) = [] \<longrightarrow> run_verify w s = Inr True)"
proof -
  let ?ps = "filter (\<lambda>p. pkg_status p = STATUS_SUCCESS) (packages (load_registry s))"
  from verify_loop_collects [OF assms, of "[]"] obtain errors where
    e: "verify_loop w s ?ps [] = Inr errors"
       "length errors = length (filter (\<lambda>p. \<not> intact w s (pkg_id p)) ?ps)"
    by auto
  have "errors = [] \<longleftrightarrow> filter (\<lambda>p. \<not> intact w s (pkg_id p)) ?ps = []"
    using e(2) by (metis length_0_conv)
  also have "\<dots> \<longleftrightarrow> (\<forall>p\<in>set ?ps. intact w s (pkg_id p))"
    by (auto simp: filter_empty_conv)
  finally have empty: "errors = [] \<longleftrightarrow> (\<forall>p\<in>set ?ps. intact w s (pkg_id p))" .
  have nil: "packages (load_registry s) = [] \<Longrightarrow> errors = []"
    using e(1) by simp
  have rv: "run_verify w s = Inr (errors = [])"
    using e(1) nil by (auto simp: run_verify_def Let_def)
  from e rv empty show ?thesis by auto
qed

lemma example_checkable: "checkable example_world example_sys ''a/b@1.0.0''"
  by (simp add: checkable_def parse_package_id_def stored_at_def example_sys_def example_files_def
      example_world_def example_loads_def)

lemma example_intact: "intact example_world example_sys ''a/b@1.0.0''"
  by (simp add: intact_def parse_package_id_def stored_at_def example_sys_def example_files_def
      example_world_def example_loads_def json_getitem_def path_exists_def)

lemma example_success_entries:
  "filter (\<lambda>p. pkg_status p = STATUS_SUCCESS) (packages (load_registry example_sys)) =
     [\<lparr>pkg_id = ''a/b@1.0.0'', pkg_status = ''success''\<rparr>]"
  by (simp add: load_registry_def example_sys_def example_registry_def STATUS_SUCCESS_def)

theorem run_verify_collects_failures_witness:
  "filter (\<lambda>p. pkg_status p = STATUS_SUCCESS) (packages (load_registry example_sys)) =
     [\<lparr>pkg_id = ''a/b@1.0.0'', pkg_status = ''success''\<rparr>]
   \<and> checkable example_world example_sys ''a/b@1.0.0''
   \<and> intact example_world example_sys ''a/b@1.0.0''
   \<and> run_verify example_world example_sys = Inr True
   \<and> verify_loop example_world example_sys
        [\<lparr>pkg_id = ''a/b@1.0.0'', pkg_status = ''success''\<rparr>] [] = Inr []"
proof -
  have c: "\<forall>p\<in>set (filter (\<lambda>p. pkg_status p = STATUS_SUCCESS) (packages (load_registry example_sys))).
             checkable example_world example_sys (pkg_id p)"
    by (simp add: example_success_entries example_checkable)
  from run_verify_collects_failures [OF c]
  have "run_verify example_world example_sys = Inr True
      \<and> verify_loop example_world example_sys
        [\<lparr>pkg_id = ''a/b@1.0.0'', pkg_status = ''success''\<rparr>] [] = Inr []"
    by (auto simp: example_success_entries example_intact)
  with example_success_entries example_checkable example_intact show ?thesis by blast
qed

text \<open>
  The claim as first stated has every failure collected without aborting the sweep. A
  success entry whose identifier is not well formed makes \<open>parse_package_id\<close> raise out of
  \<open>run_verify\<close> before the next entry is looked at; and a \<open>hash.json\<close> holding \<open>[]\<close>, which
  decodes, makes the subscript raise a \<open>TypeError\<close> that the \<open>except\<close> clause does not
  catch. In both runs \<open>run_verify\<close> returns neither \<open>True\<close> nor \<open>False\<close>.
\<close>

theorem run_verify_aborts_counterexample:
  "run_verify example_world
     (example_sys\<lparr>registry_json := Some \<lparr>packages = [\<lparr>pkg_id = ''bad'', pkg_status = ''success''\<rparr>,
                                                     \<lparr>pkg_id = ''a/b@1.0.0'', pkg_status = ''success''\<rparr>]\<rparr>\<rparr>)
     = Inl (ValueError ''Invalid package ID: bad'')
   \<and> json_loads example_world ''[]'' = Inr (JArr [])
   \<and> run_verify example_world
       (example_sys\<lparr>files := (files example_sys)(''packages/a/b/1.0.0/hash.json'' \<mapsto> File ''[]'')\<rparr>)
       = Inl TypeError"
  by (simp add: run_verify_def load_registry_def Let_def verify_package_def parse_package_id_def
      example_sys_def example_files_def example_registry_def example_world_def example_loads_def
      example_hash_json_def path_exists_def read_file_def json_getitem_def STATUS_SUCCESS_def)

end
